theory Spec2Isabelle
  imports Complex_Main
begin

section \<open>Numbers\<close>

text \<open>
  The program computes on JavaScript numbers, which are IEEE 754 binary64 values. The
  theory has the program twice.

  In the first translation numbers are mathematical reals (and integers where the
  program only counts) and every operation is exact. It serves the properties of
  structure: the order of a tick, the contract of the resolvers, the direction of a
  reflection, the loss of speed, the session.

  In the second translation, whose functions carry the suffix \<open>64\<close>, every arithmetic
  result is rounded to the nearest double, ties to even (\<open>rnd64\<close>), as the machine does.
  It serves the properties that rounding decides: what a second contact test finds after
  a bounce, and the floor in the time bonus. A double is modelled as the real number it
  denotes. Subnormal numbers are covered; infinities and NaN are not (no value of the
  game comes near the largest double).

  \<open>Math.sqrt\<close>, \<open>Math.abs\<close>, \<open>Math.min\<close>, \<open>Math.max\<close> and \<open>Math.floor\<close> are \<^const>\<open>sqrt\<close>,
  \<^const>\<open>abs\<close>, \<^const>\<open>min\<close>, \<^const>\<open>max\<close> and \<^const>\<open>floor\<close>; of these only \<open>Math.sqrt\<close>
  rounds.
\<close>

section \<open>Rounding to binary64\<close>

text \<open>The nearest integer, a tie going to the even one.\<close>

definition rhe :: "real \<Rightarrow> int" where
  "rhe m =
    (if m - of_int \<lfloor>m\<rfloor> < 1 / 2 then \<lfloor>m\<rfloor>
     else if 1 / 2 < m - of_int \<lfloor>m\<rfloor> then \<lfloor>m\<rfloor> + 1
     else if even \<lfloor>m\<rfloor> then \<lfloor>m\<rfloor> else \<lfloor>m\<rfloor> + 1)"

text \<open>
  The exponent of the binade of \<open>x\<close>, not below that of the subnormal numbers; the
  spacing of the doubles there (53 significant bits); and the nearest double.
\<close>

definition expo64 :: "real \<Rightarrow> int" where
  "expo64 x = max \<lfloor>log 2 \<bar>x\<bar>\<rfloor> (- 1022)"

definition ulp64 :: "real \<Rightarrow> real" where
  "ulp64 x = 2 powi (expo64 x - 52)"

definition rnd64 :: "real \<Rightarrow> real" where
  "rnd64 x = of_int (rhe (x / ulp64 x)) * ulp64 x"

definition is64 :: "real \<Rightarrow> bool" where
  "is64 x = (rnd64 x = x)"


definition fsub :: "real \<Rightarrow> real \<Rightarrow> real" where
  "fsub a b = rnd64 (a - b)"

definition fmul :: "real \<Rightarrow> real \<Rightarrow> real" where
  "fmul a b = rnd64 (a * b)"



section \<open>Constants (lib/levels)\<close>

definition CANVAS_WIDTH :: real where "CANVAS_WIDTH = 800"
definition CANVAS_HEIGHT :: real where "CANVAS_HEIGHT = 560"
definition BALL_RADIUS :: real where "BALL_RADIUS = 14"
definition GRAVITY :: real where "GRAVITY = 0.3"
definition RESTITUTION :: real where "RESTITUTION = 0.75"
definition LAUNCH_POWER :: real where "LAUNCH_POWER = 0.12"
definition MAX_DRAG_DIST :: real where "MAX_DRAG_DIST = 150"
definition STAR_RADIUS :: real where "STAR_RADIUS = 16"


section \<open>Data model (lib/types)\<close>

record Vec2 =
  vec_x :: real
  vec_y :: real

record RectObstacle =
  rect_x :: real
  rect_y :: real
  rect_width :: real
  rect_height :: real

record CircleObstacle =
  circle_x :: real
  circle_y :: real
  circle_radius :: real

text \<open>The field \<open>type\<close> of an obstacle (\<open>'rect'\<close> or \<open>'circle'\<close>) is the constructor.\<close>

datatype Obstacle = Rect RectObstacle | Circle CircleObstacle

record GoalZone =
  goal_x :: real
  goal_y :: real
  goal_width :: real
  goal_height :: real

record LevelConfig =
  level_id :: int
  level_name :: string
  ballStart :: Vec2
  obstacles :: "Obstacle list"
  stars :: "Vec2 list"
  goal :: GoalZone
  maxBounces :: int

record BallState =
  ball_x :: real
  ball_y :: real
  ball_vx :: real
  ball_vy :: real

record ScoreBreakdown =
  starsBonus :: int
  bounceEfficiency :: int
  timeBonus :: int
  total :: int

datatype GamePhase = Aiming | Playing | Paused | Won | Lost

section \<open>Physics (lib/physics)\<close>

record StepResult =
  ball :: BallState
  wallBounced :: bool
  obstacleBounced :: bool
  outOfBounds :: bool

text \<open>
  The two resolvers return the object \<open>{ ball, bounced }\<close>, modelled as a pair.
\<close>

definition resolveRectCollision :: "BallState \<Rightarrow> RectObstacle \<Rightarrow> BallState \<times> bool" where
  "resolveRectCollision b rect =
    (let x = ball_x b; y = ball_y b; vx = ball_vx b; vy = ball_vy b;
         r = BALL_RADIUS;
         closestX = max (rect_x rect) (min x (rect_x rect + rect_width rect));
         closestY = max (rect_y rect) (min y (rect_y rect + rect_height rect));
         dx = x - closestX;
         dy = y - closestY;
         distSq = dx * dx + dy * dy
     in if distSq < r * r \<and> distSq > 0 then
          (let dist = sqrt distSq;
               nx = dx / dist;
               ny = dy / dist;
               penetration = r - dist;
               newX = x + nx * penetration;
               newY = y + ny * penetration;
               dot = vx * nx + vy * ny;
               newVx = (vx - 2 * dot * nx) * RESTITUTION;
               newVy = (vy - 2 * dot * ny) * RESTITUTION
           in (\<lparr>ball_x = newX, ball_y = newY, ball_vx = newVx, ball_vy = newVy\<rparr>, True))
        else (b, False))"

definition resolveCircleObstacleCollision ::
    "BallState \<Rightarrow> CircleObstacle \<Rightarrow> BallState \<times> bool" where
  "resolveCircleObstacleCollision b circle =
    (let x = ball_x b; y = ball_y b; vx = ball_vx b; vy = ball_vy b;
         r = BALL_RADIUS;
         dx = x - circle_x circle;
         dy = y - circle_y circle;
         dist = sqrt (dx * dx + dy * dy);
         minDist = r + circle_radius circle
     in if dist < minDist \<and> dist > 0 then
          (let nx = dx / dist;
               ny = dy / dist;
               penetration = minDist - dist;
               newX = x + nx * penetration;
               newY = y + ny * penetration;
               dot = vx * nx + vy * ny;
               newVx = (vx - 2 * dot * nx) * RESTITUTION;
               newVy = (vy - 2 * dot * ny) * RESTITUTION
           in (\<lparr>ball_x = newX, ball_y = newY, ball_vx = newVx, ball_vy = newVy\<rparr>, True))
        else (b, False))"

text \<open>
  The loop \<open>for (const obs of obstacles)\<close> of \<open>stepPhysics\<close>, with its two mutable
  variables \<open>current\<close> and \<open>obstacleBounced\<close> as accumulators. (Where a name of the
  source is a record field here, the local variable is abbreviated: \<open>obsBounced\<close>,
  \<open>wallB\<close>, \<open>oob\<close>.)
\<close>

fun obstacleLoop :: "BallState \<Rightarrow> bool \<Rightarrow> Obstacle list \<Rightarrow> BallState \<times> bool" where
  "obstacleLoop current obsBounced [] = (current, obsBounced)"
| "obstacleLoop current obsBounced (obs # rest) =
    (let result = (case obs of
                     Rect rect \<Rightarrow> resolveRectCollision current rect
                   | Circle circle \<Rightarrow> resolveCircleObstacleCollision current circle)
     in if snd result then obstacleLoop (fst result) True rest
        else obstacleLoop current obsBounced rest)"

definition stepPhysics :: "BallState \<Rightarrow> Obstacle list \<Rightarrow> StepResult" where
  "stepPhysics b obs =
    (let x = ball_x b; y = ball_y b; vx = ball_vx b; vy = ball_vy b;
         wallB = False;
         vy = vy + GRAVITY;
         x = x + vx;
         y = y + vy;
         (x, vx, wallB) =
           (if x - BALL_RADIUS < 0
            then (BALL_RADIUS, \<bar>vx\<bar> * RESTITUTION, True) else (x, vx, wallB));
         (x, vx, wallB) =
           (if x + BALL_RADIUS > CANVAS_WIDTH
            then (CANVAS_WIDTH - BALL_RADIUS, - \<bar>vx\<bar> * RESTITUTION, True)
            else (x, vx, wallB));
         (y, vy, wallB) =
           (if y - BALL_RADIUS < 0
            then (BALL_RADIUS, \<bar>vy\<bar> * RESTITUTION, True) else (y, vy, wallB));
         (current, obsBounced) =
           obstacleLoop \<lparr>ball_x = x, ball_y = y, ball_vx = vx, ball_vy = vy\<rparr> False obs;
         oob = (ball_y current - BALL_RADIUS > CANVAS_HEIGHT)
     in \<lparr>ball = current, wallBounced = wallB,
         obstacleBounced = obsBounced, outOfBounds = oob\<rparr>)"

definition checkStarCollection :: "BallState \<Rightarrow> real \<Rightarrow> real \<Rightarrow> bool" where
  "checkStarCollection b starX starY =
    (let dx = ball_x b - starX; dy = ball_y b - starY
     in sqrt (dx * dx + dy * dy) < BALL_RADIUS + STAR_RADIUS)"

definition checkGoalEntry :: "BallState \<Rightarrow> GoalZone \<Rightarrow> bool" where
  "checkGoalEntry b g =
    (ball_x b + BALL_RADIUS > goal_x g \<and>
     ball_x b - BALL_RADIUS < goal_x g + goal_width g \<and>
     ball_y b + BALL_RADIUS > goal_y g \<and>
     ball_y b - BALL_RADIUS < goal_y g + goal_height g)"

section \<open>Physics in binary64 (lib/physics)\<close>






section \<open>Score (lib/storage)\<close>

text \<open>
  The stars and the bounces are small integers, on which doubles compute exactly, so
  they are integers here. The time is a double: \<open>60 - timeSeconds\<close> and its product
  with 10 are rounded before \<open>Math.floor\<close> sees them.
\<close>

definition calculateScore :: "int \<Rightarrow> int \<Rightarrow> real \<Rightarrow> int \<Rightarrow> ScoreBreakdown" where
  "calculateScore starsCollected bounces timeSeconds maxB =
    (let sB = starsCollected * 500;
         bE = max 0 ((maxB - bounces) * 100);
         tB = max 0 (\<lfloor>fmul (fsub 60 timeSeconds) 10\<rfloor>);
         tot = sB + bE + tB
     in \<lparr>starsBonus = sB, bounceEfficiency = bE, timeBonus = tB, total = tot\<rparr>)"

section \<open>Game session (components/GameCanvas, pages/GamePage)\<close>

text \<open>
  The component keeps its state in refs; the model collects them in one record, together
  with \<open>lastTime\<close> (a variable of the game loop's closure) and \<open>calls\<close>, the callbacks
  invoked so far, oldest first.

  \<open>onPhaseChange p\<close> is the page's \<open>setPhase p\<close>; the component copies the phase into
  \<open>phaseRef\<close> in an effect that runs before the next animation frame. The model
  writes \<open>phaseRef\<close> at the call. \<open>handlePause\<close> of the page toggles the same phase.
\<close>

datatype Callback =
    OnPhaseChange GamePhase
  | OnBounceUpdate int
  | OnStarCollect nat
  | OnTimeUpdate real
  | OnWin ScoreBreakdown int
  | OnLose

record Session =
  ballRef :: BallState
  trailRef :: "Vec2 list"
  dragStartRef :: "Vec2 option"
  dragCurrentRef :: "Vec2 option"
  startTimeRef :: real
  elapsedRef :: real
  phaseRef :: GamePhase
  winFiredRef :: bool
  loseFiredRef :: bool
  starsCollectedRef :: "bool list"
  bouncesRef :: int
  lastTime :: real
  calls :: "Callback list"

definition emit :: "Callback \<Rightarrow> Session \<Rightarrow> Session" where
  "emit c s = s\<lparr>calls := calls s @ [c]\<rparr>"

definition onPhaseChange :: "GamePhase \<Rightarrow> Session \<Rightarrow> Session" where
  "onPhaseChange p s = emit (OnPhaseChange p) (s\<lparr>phaseRef := p\<rparr>)"

text \<open>
  The state after the reset effect of a fresh game (phase \<open>'aiming'\<close>), the loop's effect
  having read the clock at \<open>now\<close>.
\<close>

definition initSession :: "LevelConfig \<Rightarrow> real \<Rightarrow> Session" where
  "initSession level now =
    \<lparr>ballRef = \<lparr>ball_x = vec_x (ballStart level), ball_y = vec_y (ballStart level),
                 ball_vx = 0, ball_vy = 0\<rparr>,
     trailRef = [],
     dragStartRef = None,
     dragCurrentRef = None,
     startTimeRef = 0,
     elapsedRef = 0,
     phaseRef = Aiming,
     winFiredRef = False,
     loseFiredRef = False,
     starsCollectedRef = map (\<lambda>_. False) (stars level),
     bouncesRef = 0,
     lastTime = now,
     calls = [OnBounceUpdate 0, OnTimeUpdate 0]\<rparr>"

definition handleMouseDown :: "Vec2 \<Rightarrow> Session \<Rightarrow> Session" where
  "handleMouseDown pos s =
    (if phaseRef s \<noteq> Aiming then s
     else
       (let b = ballRef s;
            dx = vec_x pos - ball_x b;
            dy = vec_y pos - ball_y b
        in if sqrt (dx * dx + dy * dy) < BALL_RADIUS * 3
           then s\<lparr>dragStartRef := Some \<lparr>vec_x = ball_x b, vec_y = ball_y b\<rparr>,
                  dragCurrentRef := Some pos\<rparr>
           else s))"

definition handleMouseMove :: "Vec2 \<Rightarrow> Session \<Rightarrow> Session" where
  "handleMouseMove pos s =
    (if phaseRef s \<noteq> Aiming \<or> dragStartRef s = None then s
     else s\<lparr>dragCurrentRef := Some pos\<rparr>)"

text \<open>
  \<open>endPos\<close> is the canvas position of the event (\<open>end\<close> in the source), \<open>now\<close> the
  clock read at launch.
\<close>

definition handleMouseUp :: "Vec2 \<Rightarrow> real \<Rightarrow> Session \<Rightarrow> Session" where
  "handleMouseUp endPos now s =
    (case dragStartRef s of
       None \<Rightarrow> s
     | Some start \<Rightarrow>
        if phaseRef s \<noteq> Aiming then s
        else
          (let dx = vec_x endPos - vec_x start;
               dy = vec_y endPos - vec_y start;
               dist = min (sqrt (dx * dx + dy * dy)) MAX_DRAG_DIST
           in if dist < 5 then s\<lparr>dragStartRef := None, dragCurrentRef := None\<rparr>
              else
                (let mag = sqrt (dx * dx + dy * dy);
                     speed = dist * LAUNCH_POWER;
                     s = s\<lparr>ballRef := (ballRef s)\<lparr>ball_vx := (dx / mag) * speed,
                                                   ball_vy := (dy / mag) * speed\<rparr>\<rparr>;
                     s = s\<lparr>dragStartRef := None, dragCurrentRef := None\<rparr>;
                     s = s\<lparr>startTimeRef := now\<rparr>
                 in onPhaseChange Playing s)))"

definition handlePause :: "Session \<Rightarrow> Session" where
  "handlePause s =
    (if phaseRef s = Playing then s\<lparr>phaseRef := Paused\<rparr>
     else if phaseRef s = Paused then s\<lparr>phaseRef := Playing\<rparr>
     else s)"

text \<open>
  Array reads and writes as JavaScript does them: reading past the end gives
  \<open>undefined\<close> (falsy), writing past the end extends the array (with holes, falsy too).
\<close>

definition jsTruthyAt :: "bool list \<Rightarrow> nat \<Rightarrow> bool" where
  "jsTruthyAt xs i = (i < length xs \<and> xs ! i)"

definition jsSet :: "bool list \<Rightarrow> nat \<Rightarrow> bool \<Rightarrow> bool list" where
  "jsSet xs i v =
    (if i < length xs then xs[i := v] else xs @ replicate (i - length xs) False @ [v])"

text \<open>\<open>level.stars.forEach((star, i) => ...)\<close> of the game loop, from index \<open>i\<close> on.\<close>

fun collectStars :: "Vec2 list \<Rightarrow> nat \<Rightarrow> Session \<Rightarrow> Session" where
  "collectStars [] i s = s"
| "collectStars (star # rest) i s =
    collectStars rest (Suc i)
      (if \<not> jsTruthyAt (starsCollectedRef s) i
          \<and> checkStarCollection (ballRef s) (vec_x star) (vec_y star)
       then emit (OnStarCollect i) (s\<lparr>starsCollectedRef := jsSet (starsCollectedRef s) i True\<rparr>)
       else s)"

text \<open>
  One iteration of the loop \<open>for (let s = 0; s < Math.min(steps, 3); s++)\<close>. The flag
  returned says that the iteration ended in \<open>return\<close>.
\<close>

definition loopBody :: "LevelConfig \<Rightarrow> Session \<Rightarrow> Session \<times> bool" where
  "loopBody level s =
    (let result = stepPhysics (ballRef s) (obstacles level);
         s = s\<lparr>ballRef := ball result\<rparr>;
         s = (if wallBounced result \<or> obstacleBounced result
              then (let s = s\<lparr>bouncesRef := bouncesRef s + 1\<rparr>
                    in emit (OnBounceUpdate (bouncesRef s)) s)
              else s);
         s = collectStars (stars level) 0 s;
         s = s\<lparr>trailRef := trailRef s
                  @ [\<lparr>vec_x = ball_x (ballRef s), vec_y = ball_y (ballRef s)\<rparr>]\<rparr>;
         s = (if length (trailRef s) > 18 then s\<lparr>trailRef := tl (trailRef s)\<rparr> else s)
     in if \<not> winFiredRef s \<and> checkGoalEntry (ballRef s) (goal level) then
          (let s = s\<lparr>winFiredRef := True\<rparr>;
               starsCount = int (length (filter (\<lambda>c. c) (starsCollectedRef s)));
               score = calculateScore starsCount (bouncesRef s) (elapsedRef s)
                         (maxBounces level);
               s = emit (OnWin score starsCount) s
           in (onPhaseChange Won s, True))
        else if \<not> loseFiredRef s \<and> outOfBounds result then
          (let s = s\<lparr>loseFiredRef := True\<rparr>;
               s = emit OnLose s
           in (onPhaseChange Lost s, True))
        else if \<not> loseFiredRef s \<and> bouncesRef s > maxBounces level then
          (let s = s\<lparr>loseFiredRef := True\<rparr>;
               s = emit OnLose s
           in (onPhaseChange Lost s, True))
        else (s, False))"

fun runSteps :: "LevelConfig \<Rightarrow> nat \<Rightarrow> Session \<Rightarrow> Session \<times> bool" where
  "runSteps level 0 s = (s, False)"
| "runSteps level (Suc n) s =
    (case loopBody level s of
       (s', True) \<Rightarrow> (s', True)
     | (s', False) \<Rightarrow> runSteps level n s')"

text \<open>
  The frame callback \<open>loop(now)\<close>. \<open>Math.round\<close> is \<open>\<lfloor>x + 1/2\<rfloor>\<close>. Drawing reads the
  state and changes none of it, so it is left out.
\<close>

definition loop :: "LevelConfig \<Rightarrow> real \<Rightarrow> Session \<Rightarrow> Session" where
  "loop level now s =
    (if phaseRef s = Playing then
       (let s = s\<lparr>elapsedRef := (now - startTimeRef s) / 1000\<rparr>;
            s = emit (OnTimeUpdate (elapsedRef s)) s;
            dt = now - lastTime s;
            steps = \<lfloor>dt / 16.67 + 1 / 2\<rfloor>
        in case runSteps level (nat (min steps 3)) s of
             (s', True) \<Rightarrow> s'
           | (s', False) \<Rightarrow> s'\<lparr>lastTime := now\<rparr>)
     else s\<lparr>lastTime := now\<rparr>)"

text \<open>
  What can happen to a session between two restarts, and a run of such events. The effect
  that owns the game loop runs again after every change of the phase and then reads the
  clock into \<open>lastTime\<close>: that is the event \<open>LoopEffect\<close>.
\<close>

datatype Event =
    Frame real
  | MouseDown Vec2
  | MouseMove Vec2
  | MouseUp Vec2 real
  | PauseClick
  | LoopEffect real

fun handle :: "LevelConfig \<Rightarrow> Session \<Rightarrow> Event \<Rightarrow> Session" where
  "handle level s (Frame now) = loop level now s"
| "handle level s (MouseDown pos) = handleMouseDown pos s"
| "handle level s (MouseMove pos) = handleMouseMove pos s"
| "handle level s (MouseUp pos now) = handleMouseUp pos now s"
| "handle level s PauseClick = handlePause s"
| "handle level s (LoopEffect now) = s\<lparr>lastTime := now\<rparr>"

definition run :: "LevelConfig \<Rightarrow> Event list \<Rightarrow> Session \<Rightarrow> Session" where
  "run level es s = foldl (handle level) s es"

section \<open>The physics as the specification words it\<close>

text \<open>
  These definitions follow the specification's sentences, not the code; the theorems
  below compare them with the functions above. A vector is a pair.
\<close>

definition speed :: "BallState \<Rightarrow> real" where
  "speed b = sqrt (ball_vx b * ball_vx b + ball_vy b * ball_vy b)"

definition spec_unit :: "real \<times> real \<Rightarrow> bool" where
  "spec_unit n = (fst n * fst n + snd n * snd n = 1)"

text \<open>The closest point on the rectangle: the ball's centre clamped to its bounds.\<close>

definition spec_closest :: "BallState \<Rightarrow> RectObstacle \<Rightarrow> real \<times> real" where
  "spec_closest b rect =
    (max (rect_x rect) (min (ball_x b) (rect_x rect + rect_width rect)),
     max (rect_y rect) (min (ball_y b) (rect_y rect + rect_height rect)))"

definition spec_rectDistSq :: "BallState \<Rightarrow> RectObstacle \<Rightarrow> real" where
  "spec_rectDistSq b rect =
    (ball_x b - fst (spec_closest b rect)) * (ball_x b - fst (spec_closest b rect))
    + (ball_y b - snd (spec_closest b rect)) * (ball_y b - snd (spec_closest b rect))"

definition spec_rectContact :: "BallState \<Rightarrow> RectObstacle \<Rightarrow> bool" where
  "spec_rectContact b rect =
    (0 < spec_rectDistSq b rect \<and> spec_rectDistSq b rect < 14 * 14)"

definition spec_rectNormal :: "BallState \<Rightarrow> RectObstacle \<Rightarrow> real \<times> real" where
  "spec_rectNormal b rect =
    ((ball_x b - fst (spec_closest b rect)) / sqrt (spec_rectDistSq b rect),
     (ball_y b - snd (spec_closest b rect)) / sqrt (spec_rectDistSq b rect))"

definition spec_circleDist :: "BallState \<Rightarrow> CircleObstacle \<Rightarrow> real" where
  "spec_circleDist b c =
    sqrt ((ball_x b - circle_x c) * (ball_x b - circle_x c)
          + (ball_y b - circle_y c) * (ball_y b - circle_y c))"

definition spec_circleContact :: "BallState \<Rightarrow> CircleObstacle \<Rightarrow> bool" where
  "spec_circleContact b c =
    (0 < spec_circleDist b c \<and> spec_circleDist b c < 14 + circle_radius c)"

definition spec_circleNormal :: "BallState \<Rightarrow> CircleObstacle \<Rightarrow> real \<times> real" where
  "spec_circleNormal b c =
    ((ball_x b - circle_x c) / spec_circleDist b c,
     (ball_y b - circle_y c) / spec_circleDist b c)"

text \<open>
  The corrected state: the position pushed out along the normal \<open>n\<close> by \<open>depth\<close>, the
  velocity \<open>v' = (v - 2(v\<cdot>n)n) \<cdot> 0.75\<close>.
\<close>

definition spec_bounce :: "BallState \<Rightarrow> real \<times> real \<Rightarrow> real \<Rightarrow> BallState" where
  "spec_bounce b n depth =
    \<lparr>ball_x = ball_x b + fst n * depth,
     ball_y = ball_y b + snd n * depth,
     ball_vx = (ball_vx b - 2 * (ball_vx b * fst n + ball_vy b * snd n) * fst n) * 0.75,
     ball_vy = (ball_vy b - 2 * (ball_vx b * fst n + ball_vy b * snd n) * snd n) * 0.75\<rparr>"

definition spec_resolve :: "BallState \<Rightarrow> Obstacle \<Rightarrow> BallState \<times> bool" where
  "spec_resolve b obs =
    (case obs of
       Rect rect \<Rightarrow>
         if spec_rectContact b rect
         then (spec_bounce b (spec_rectNormal b rect) (14 - sqrt (spec_rectDistSq b rect)), True)
         else (b, False)
     | Circle c \<Rightarrow>
         if spec_circleContact b c
         then (spec_bounce b (spec_circleNormal b c)
                 (14 + circle_radius c - spec_circleDist b c), True)
         else (b, False))"

text \<open>The five stages of a tick. A stage that can bounce carries the flag along.\<close>

definition spec_gravity :: "BallState \<Rightarrow> BallState" where
  "spec_gravity b = b\<lparr>ball_vy := ball_vy b + 0.3\<rparr>"

definition spec_integrate :: "BallState \<Rightarrow> BallState" where
  "spec_integrate b = b\<lparr>ball_x := ball_x b + ball_vx b, ball_y := ball_y b + ball_vy b\<rparr>"

definition spec_leftWall :: "BallState \<times> bool \<Rightarrow> BallState \<times> bool" where
  "spec_leftWall bw =
    (if ball_x (fst bw) - 14 < 0
     then ((fst bw)\<lparr>ball_x := 14, ball_vx := \<bar>ball_vx (fst bw)\<bar> * 0.75\<rparr>, True)
     else bw)"

definition spec_rightWall :: "BallState \<times> bool \<Rightarrow> BallState \<times> bool" where
  "spec_rightWall bw =
    (if ball_x (fst bw) + 14 > 800
     then ((fst bw)\<lparr>ball_x := 800 - 14, ball_vx := - \<bar>ball_vx (fst bw)\<bar> * 0.75\<rparr>, True)
     else bw)"

definition spec_ceiling :: "BallState \<times> bool \<Rightarrow> BallState \<times> bool" where
  "spec_ceiling bw =
    (if ball_y (fst bw) - 14 < 0
     then ((fst bw)\<lparr>ball_y := 14, ball_vy := \<bar>ball_vy (fst bw)\<bar> * 0.75\<rparr>, True)
     else bw)"

definition spec_walls :: "BallState \<Rightarrow> BallState \<times> bool" where
  "spec_walls b = spec_ceiling (spec_rightWall (spec_leftWall (b, False)))"

text \<open>
  One obstacle of the list: the resolver sees the state the previous ones left, and the
  flag records that any of them bounced.
\<close>

definition spec_obstacle :: "BallState \<times> bool \<Rightarrow> Obstacle \<Rightarrow> BallState \<times> bool" where
  "spec_obstacle bh obs = (fst (spec_resolve (fst bh) obs), snd bh \<or> snd (spec_resolve (fst bh) obs))"

definition spec_tick :: "BallState \<Rightarrow> Obstacle list \<Rightarrow> StepResult" where
  "spec_tick b obs =
    (let bw = spec_walls (spec_integrate (spec_gravity b));
         bh = foldl spec_obstacle (fst bw, False) obs
     in \<lparr>ball = fst bh, wallBounced = snd bw, obstacleBounced = snd bh,
         outOfBounds = (ball_y (fst bh) - 14 > 560)\<rparr>)"

text \<open>The contact test of the resolvers: the resolver reports a bounce.\<close>

definition inContact :: "BallState \<Rightarrow> Obstacle \<Rightarrow> bool" where
  "inContact b obs =
    (case obs of
       Rect rect \<Rightarrow> snd (resolveRectCollision b rect)
     | Circle circle \<Rightarrow> snd (resolveCircleObstacleCollision b circle))"

text \<open>The ball after the wall stage of \<open>stepPhysics\<close>: a tick without obstacles.\<close>

definition afterWalls :: "BallState \<Rightarrow> BallState" where
  "afterWalls b = ball (stepPhysics b [])"

section \<open>Observing the binary64 resolvers\<close>







section \<open>Observing a session\<close>

text \<open>
  The state of \<open>loopBody\<close> when it reaches its three termination checks: the same
  statements, up to the trail.
\<close>

definition stepState :: "LevelConfig \<Rightarrow> Session \<Rightarrow> Session" where
  "stepState level s =
    (let result = stepPhysics (ballRef s) (obstacles level);
         s = s\<lparr>ballRef := ball result\<rparr>;
         s = (if wallBounced result \<or> obstacleBounced result
              then (let s = s\<lparr>bouncesRef := bouncesRef s + 1\<rparr>
                    in emit (OnBounceUpdate (bouncesRef s)) s)
              else s);
         s = collectStars (stars level) 0 s;
         s = s\<lparr>trailRef := trailRef s
                  @ [\<lparr>vec_x = ball_x (ballRef s), vec_y = ball_y (ballRef s)\<rparr>]\<rparr>;
         s = (if length (trailRef s) > 18 then s\<lparr>trailRef := tl (trailRef s)\<rparr> else s)
     in s)"

text \<open>
  A terminal transition fires when the component calls \<open>onPhaseChange('won')\<close> or
  \<open>onPhaseChange('lost')\<close>; \<open>firings\<close> counts these calls of a session.
\<close>

definition isFiring :: "Callback \<Rightarrow> bool" where
  "isFiring c = (c = OnPhaseChange Won \<or> c = OnPhaseChange Lost)"

definition firings :: "Session \<Rightarrow> nat" where
  "firings s = length (filter isFiring (calls s))"

text \<open>The three conditions of a step, each with its latch, as the checks read them.\<close>

definition winsNow :: "LevelConfig \<Rightarrow> Session \<Rightarrow> bool" where
  "winsNow level s =
    (\<not> winFiredRef s \<and> checkGoalEntry (ballRef (stepState level s)) (goal level))"

definition losesOutOfBounds :: "LevelConfig \<Rightarrow> Session \<Rightarrow> bool" where
  "losesOutOfBounds level s =
    (\<not> loseFiredRef s \<and> outOfBounds (stepPhysics (ballRef s) (obstacles level)))"

definition losesMaxBounces :: "LevelConfig \<Rightarrow> Session \<Rightarrow> bool" where
  "losesMaxBounces level s =
    (\<not> loseFiredRef s \<and> bouncesRef (stepState level s) > maxBounces level)"

text \<open>
  The latches, the phase and the count of firings agree: a latch is set exactly in its
  terminal phase, and a terminal phase has fired exactly once.
\<close>

definition consistent :: "Session \<Rightarrow> bool" where
  "consistent s =
    (winFiredRef s = (phaseRef s = Won) \<and>
     loseFiredRef s = (phaseRef s = Lost) \<and>
     firings s = (if phaseRef s = Won \<or> phaseRef s = Lost then 1 else 0))"

section \<open>Example states\<close>


definition ex_slab :: RectObstacle where
  "ex_slab = \<lparr>rect_x = 0, rect_y = 100, rect_width = 100, rect_height = 10\<rparr>"




text \<open>
  A ball that gravity brings to rest at \<open>(50, 90)\<close>, between the slab below it and a
  second slab whose underside is at \<open>y = 80\<close>: the gap of 20 is narrower than the ball.
\<close>

definition gap_ball :: BallState where
  "gap_ball = \<lparr>ball_x = 50, ball_y = 90, ball_vx = 0, ball_vy = - 0.3\<rparr>"

definition gap_roof :: RectObstacle where
  "gap_roof = \<lparr>rect_x = 0, rect_y = 70, rect_width = 100, rect_height = 10\<rparr>"

text \<open>
  A level whose goal zone surrounds the start of the ball, and a session on it: the
  button pressed on the ball, released at \<open>(160, 220)\<close> at time 0 (a drag of length 100),
  and a first frame 17 ms later.
\<close>

definition ex_level :: LevelConfig where
  "ex_level =
    \<lparr>level_id = 1, level_name = ''Example'',
     ballStart = \<lparr>vec_x = 100, vec_y = 300\<rparr>,
     obstacles = [],
     stars = [],
     goal = \<lparr>goal_x = 80, goal_y = 280, goal_width = 100, goal_height = 100\<rparr>,
     maxBounces = 3\<rparr>"

definition ex_aiming :: Session where
  "ex_aiming = handleMouseDown \<lparr>vec_x = 100, vec_y = 300\<rparr> (initSession ex_level 0)"

definition ex_playing :: Session where
  "ex_playing = handleMouseUp \<lparr>vec_x = 160, vec_y = 220\<rparr> 0 ex_aiming"

definition ex_won :: Session where
  "ex_won = loop ex_level 17 ex_playing"

text \<open>A level with the two slabs, and a session playing on it with the ball between them.\<close>

definition gap_level :: LevelConfig where
  "gap_level =
    \<lparr>level_id = 2, level_name = ''Gap'',
     ballStart = \<lparr>vec_x = 50, vec_y = 90\<rparr>,
     obstacles = [Rect ex_slab, Rect gap_roof],
     stars = [],
     goal = \<lparr>goal_x = 600, goal_y = 400, goal_width = 100, goal_height = 100\<rparr>,
     maxBounces = 3\<rparr>"

definition gap_session :: Session where
  "gap_session = (initSession gap_level 0)\<lparr>ballRef := gap_ball, phaseRef := Playing\<rparr>"


definition tenth64 :: real where
  "tenth64 = 3602879701896397 / 36028797018963968"





section \<open>Facts about the constants\<close>

lemmas constant_defs =
  CANVAS_WIDTH_def CANVAS_HEIGHT_def BALL_RADIUS_def GRAVITY_def RESTITUTION_def
  LAUNCH_POWER_def MAX_DRAG_DIST_def STAR_RADIUS_def

section \<open>Properties of the rounding\<close>

lemma rhe_int: "rhe (of_int k) = k"
  by (simp add: rhe_def)

lemma rhe_range: "\<lfloor>m\<rfloor> \<le> rhe m \<and> rhe m \<le> \<lfloor>m\<rfloor> + 1"
  by (simp add: rhe_def)

lemma rhe_near:
  assumes "\<bar>m - of_int k\<bar> < 1 / 2"
  shows "rhe m = k"
proof -
  have a: "m - of_int k < 1 / 2" and b: "of_int k - m < 1 / 2" using assms by linarith+
  have "\<lfloor>m\<rfloor> = k \<or> \<lfloor>m\<rfloor> = k - 1" using a b by linarith
  then show ?thesis
  proof
    assume f: "\<lfloor>m\<rfloor> = k"
    have "m - of_int \<lfloor>m\<rfloor> < 1 / 2" unfolding f by (rule a)
    then show ?thesis using f by (simp add: rhe_def)
  next
    assume f: "\<lfloor>m\<rfloor> = k - 1"
    have "1 / 2 < m - of_int \<lfloor>m\<rfloor>" unfolding f using b by simp
    then show ?thesis using f by (simp add: rhe_def)
  qed
qed

lemma rhe_mono:
  assumes "m \<le> n"
  shows "rhe m \<le> rhe n"
proof (cases "\<lfloor>m\<rfloor> = \<lfloor>n\<rfloor>")
  case False
  then have "\<lfloor>m\<rfloor> < \<lfloor>n\<rfloor>" using assms floor_mono [of m n] by linarith
  then show ?thesis using rhe_range [of m] rhe_range [of n] by linarith
next
  case True
  then show ?thesis using assms by (auto simp: rhe_def)
qed

lemma rhe_minus: "rhe (- m) = - rhe m"
proof (cases "m = of_int \<lfloor>m\<rfloor>")
  case True
  then obtain k where "m = of_int k" ..
  then have "rhe (- m) = rhe (of_int (- k))" by simp
  also have "\<dots> = - k" by (rule rhe_int)
  finally show ?thesis using \<open>m = of_int k\<close> by (simp add: rhe_int)
next
  case False
  then have lt: "of_int \<lfloor>m\<rfloor> < m" using of_int_floor_le [of m] by linarith
  have "m < of_int \<lfloor>m\<rfloor> + 1" by linarith
  with lt have f: "\<lfloor>- m\<rfloor> = - \<lfloor>m\<rfloor> - 1" by linarith
  show ?thesis unfolding rhe_def f using lt by auto
qed

lemma pow2_pos: "0 < (2::real) powi k"
  by (simp add: zero_less_power_int)

lemma pow2_mono: "a \<le> b \<Longrightarrow> (2::real) powi a \<le> 2 powi b"
  by (rule power_int_increasing) simp_all

lemma pow2_less_cancel: "(2::real) powi a < 2 powi b \<Longrightarrow> a < b"
  using pow2_mono [of b a] by (cases "a < b") auto

lemma pow2_powr: "(2::real) powr (real_of_int k) = 2 powi k"
  by (rule powr_real_of_int') simp_all

lemma pow2_powr1: "(2::real) powr (real_of_int k + 1) = 2 powi (k + 1)"
  using pow2_powr [of "k + 1"] by simp

lemma binade:
  assumes "x \<noteq> 0"
  shows "2 powi \<lfloor>log 2 \<bar>x\<bar>\<rfloor> \<le> \<bar>x\<bar> \<and> \<bar>x\<bar> < 2 powi (\<lfloor>log 2 \<bar>x\<bar>\<rfloor> + 1)"
proof -
  define l where "l = \<lfloor>log 2 \<bar>x\<bar>\<rfloor>"
  have pos: "0 < \<bar>x\<bar>" using assms by simp
  have "2 powr (real_of_int l) \<le> \<bar>x\<bar> \<and> \<bar>x\<bar> < 2 powr (real_of_int (l + 1))"
    using floor_log_eq_powr_iff [of "\<bar>x\<bar>" 2 l] pos by (simp add: l_def)
  then show ?thesis
    unfolding l_def [symmetric] by (simp add: pow2_powr pow2_powr1)
qed

lemma binade_unique:
  assumes "x \<noteq> 0" and "2 powi e \<le> \<bar>x\<bar>" and "\<bar>x\<bar> < 2 powi (e + 1)"
  shows "\<lfloor>log 2 \<bar>x\<bar>\<rfloor> = e"
proof -
  have pos: "0 < \<bar>x\<bar>" using assms(1) by simp
  have "2 powr (real_of_int e) \<le> \<bar>x\<bar> \<and> \<bar>x\<bar> < 2 powr (real_of_int (e + 1))"
    using assms(2,3) by (simp add: pow2_powr pow2_powr1)
  then show ?thesis
    using floor_log_eq_powr_iff [of "\<bar>x\<bar>" 2 e] pos by simp
qed

lemma expo64_props:
  assumes "x \<noteq> 0"
  shows "- 1022 \<le> expo64 x" and "\<bar>x\<bar> < 2 powi (expo64 x + 1)"
    and "expo64 x = - 1022 \<or> 2 powi expo64 x \<le> \<bar>x\<bar>"
proof -
  note b = binade [OF assms]
  show "- 1022 \<le> expo64 x" by (simp add: expo64_def)
  have "2 powi (\<lfloor>log 2 \<bar>x\<bar>\<rfloor> + 1) \<le> (2::real) powi (expo64 x + 1)"
    by (rule pow2_mono) (simp add: expo64_def)
  with b show "\<bar>x\<bar> < 2 powi (expo64 x + 1)" by linarith
  show "expo64 x = - 1022 \<or> 2 powi expo64 x \<le> \<bar>x\<bar>"
    using b by (auto simp: expo64_def max_def)
qed

lemma expo64_eq:
  assumes "x \<noteq> 0" and "- 1022 \<le> e" and "\<bar>x\<bar> < 2 powi (e + 1)"
      and "e = - 1022 \<or> 2 powi e \<le> \<bar>x\<bar>"
  shows "expo64 x = e"
proof (cases "2 powi e \<le> \<bar>x\<bar>")
  case True
  then have "\<lfloor>log 2 \<bar>x\<bar>\<rfloor> = e" using assms(1,3) by (intro binade_unique)
  then show ?thesis using assms(2) by (simp add: expo64_def)
next
  case False
  then have e: "e = - 1022" using assms(4) by simp
  have "2 powi \<lfloor>log 2 \<bar>x\<bar>\<rfloor> < (2::real) powi (e + 1)"
    using binade [OF assms(1)] assms(3) by linarith
  then have "\<lfloor>log 2 \<bar>x\<bar>\<rfloor> < e + 1" by (rule pow2_less_cancel)
  then show ?thesis using e by (simp add: expo64_def)
qed

lemma rnd64_zero: "rnd64 0 = 0"
  by (simp add: rnd64_def rhe_def)

lemma ulp64_pos: "0 < ulp64 x"
  by (simp add: ulp64_def pow2_pos)


lemma pow2_shift: "a = int n + k \<Longrightarrow> (2::real) powi a = 2 ^ n * 2 powi k"
  by (simp add: power_int_add)


lemma rnd64_nonneg: "0 \<le> x \<Longrightarrow> 0 \<le> rnd64 x"
proof -
  assume "0 \<le> x"
  then have "real_of_int 0 \<le> x / ulp64 x" using ulp64_pos [of x] by simp
  from rhe_mono [OF this] have "0 \<le> rhe (x / ulp64 x)" by (simp only: rhe_int)
  then show ?thesis using ulp64_pos [of x] by (simp add: rnd64_def)
qed

lemma rnd64_minus: "rnd64 (- x) = - rnd64 x"
proof -
  have "ulp64 (- x) = ulp64 x" by (simp add: ulp64_def expo64_def)
  then show ?thesis by (simp add: rnd64_def rhe_minus)
qed

lemma rnd64_nonpos: "x \<le> 0 \<Longrightarrow> rnd64 x \<le> 0"
  using rnd64_nonneg [of "- x"] by (simp add: rnd64_minus)





lemma rnd64_eval:
  assumes "x \<noteq> 0" and "- 1022 \<le> e" and "\<bar>x\<bar> < 2 powi (e + 1)"
      and "e = - 1022 \<or> 2 powi e \<le> \<bar>x\<bar>"
      and "\<bar>x / 2 powi (e - 52) - of_int k\<bar> < 1 / 2"
  shows "rnd64 x = of_int k * 2 powi (e - 52)"
proof -
  have "expo64 x = e" using assms(1-4) by (rule expo64_eq)
  then have u: "ulp64 x = 2 powi (e - 52)" by (simp add: ulp64_def)
  have "rhe (x / 2 powi (e - 52)) = k" using assms(5) by (rule rhe_near)
  then show ?thesis by (simp add: rnd64_def u)
qed

section \<open>Geometry of a bounce\<close>

text \<open>
  Pushing a point away from its clamp keeps the clamp; the contact normal has length 1;
  reflecting about a unit vector keeps the length of the velocity.
\<close>

lemma clamp_push:
  fixes a b x t :: real
  assumes "0 \<le> t"
  shows "max a (min (x + (x - max a (min x b)) * t) b) = max a (min x b)"
proof -
  consider "x < a" | "a \<le> x" "x \<le> b" | "a \<le> x" "b < x" by linarith
  then show ?thesis
  proof cases
    case 1
    then have c: "max a (min x b) = a" by simp
    have "(x - a) * t \<le> 0" using 1 assms by (simp add: mult_nonpos_nonneg)
    then have "x + (x - a) * t < a" using 1 by linarith
    then show ?thesis unfolding c by simp
  next
    case 2
    then have c: "max a (min x b) = x" by simp
    show ?thesis unfolding c using 2 by simp
  next
    case 3
    then have c: "max a (min x b) = max a b" by simp
    show ?thesis
    proof (cases "a \<le> b")
      case True
      then have "0 \<le> (x - max a b) * t" using 3 assms by (simp add: max_def)
      then have "b < x + (x - max a b) * t" using 3 by linarith
      then show ?thesis unfolding c by simp
    next
      case False
      then show ?thesis unfolding c by (simp add: max_def min_def)
    qed
  qed
qed

lemma unit_normal:
  fixes dx dy :: real
  assumes "0 < dx * dx + dy * dy"
  shows "(dx / sqrt (dx * dx + dy * dy)) * (dx / sqrt (dx * dx + dy * dy))
       + (dy / sqrt (dx * dx + dy * dy)) * (dy / sqrt (dx * dx + dy * dy)) = 1"
proof -
  define d where "d = sqrt (dx * dx + dy * dy)"
  have dd: "d * d = dx * dx + dy * dy" using assms by (simp add: d_def)
  have "0 < d * d" using assms by (simp only: dd)
  then have nz: "d * d \<noteq> 0" by (metis less_irrefl)
  have "(dx / d) * (dx / d) + (dy / d) * (dy / d) = (dx * dx + dy * dy) / (d * d)"
    by (simp only: times_divide_times_eq add_divide_distrib)
  also have "\<dots> = 1" unfolding dd [symmetric] using nz by simp
  finally show ?thesis by (simp only: d_def)
qed

lemma reflect_norm:
  fixes vx vy nx ny :: real
  assumes "nx * nx + ny * ny = 1"
  shows "(vx - 2 * (vx * nx + vy * ny) * nx) * (vx - 2 * (vx * nx + vy * ny) * nx)
       + (vy - 2 * (vx * nx + vy * ny) * ny) * (vy - 2 * (vx * nx + vy * ny) * ny)
       = vx * vx + vy * vy"
proof -
  let ?d = "vx * nx + vy * ny"
  have "(vx - 2 * ?d * nx) * (vx - 2 * ?d * nx) + (vy - 2 * ?d * ny) * (vy - 2 * ?d * ny)
        = vx * vx + vy * vy - 4 * ?d * ?d + 4 * ?d * ?d * (nx * nx + ny * ny)"
    by (simp add: algebra_simps)
  then show ?thesis using assms by simp
qed

section \<open>The resolvers and the specification's resolver\<close>

lemma rect_eq_spec:
  "resolveRectCollision b rect = spec_resolve b (Rect rect)"
  by (simp add: resolveRectCollision_def spec_resolve_def spec_rectContact_def
      spec_rectDistSq_def spec_closest_def spec_rectNormal_def spec_bounce_def Let_def
      constant_defs)

lemma circle_eq_spec:
  "resolveCircleObstacleCollision b c = spec_resolve b (Circle c)"
  by (simp add: resolveCircleObstacleCollision_def spec_resolve_def spec_circleContact_def
      spec_circleDist_def spec_circleNormal_def spec_bounce_def Let_def constant_defs)

lemma push_distSq:
  fixes dx dy r :: real
  assumes "0 < dx * dx + dy * dy"
  shows "(dx + dx / sqrt (dx * dx + dy * dy) * (r - sqrt (dx * dx + dy * dy)))
         * (dx + dx / sqrt (dx * dx + dy * dy) * (r - sqrt (dx * dx + dy * dy)))
       + (dy + dy / sqrt (dx * dx + dy * dy) * (r - sqrt (dx * dx + dy * dy)))
         * (dy + dy / sqrt (dx * dx + dy * dy) * (r - sqrt (dx * dx + dy * dy)))
       = r * r"
proof -
  define d where "d = sqrt (dx * dx + dy * dy)"
  define nx where "nx = dx / d"
  define ny where "ny = dy / d"
  have dpos: "0 < d" using assms by (simp add: d_def)
  have u: "nx * nx + ny * ny = 1"
    using unit_normal [OF assms] by (simp only: nx_def ny_def d_def)
  have dxe: "dx = nx * d" and dye: "dy = ny * d" using dpos by (simp_all add: nx_def ny_def)
  have px: "dx + nx * (r - d) = nx * r" by (subst dxe) (simp add: algebra_simps)
  have py: "dy + ny * (r - d) = ny * r" by (subst dye) (simp add: algebra_simps)
  have "(dx + nx * (r - d)) * (dx + nx * (r - d)) + (dy + ny * (r - d)) * (dy + ny * (r - d))
        = (nx * nx + ny * ny) * (r * r)"
    unfolding px py by (simp add: algebra_simps)
  then have "(dx + nx * (r - d)) * (dx + nx * (r - d)) + (dy + ny * (r - d)) * (dy + ny * (r - d))
        = r * r"
    by (simp only: u mult_1)
  then show ?thesis by (simp only: nx_def ny_def d_def)
qed

lemma rect_contact_iff: "snd (resolveRectCollision b rect) = spec_rectContact b rect"
  by (simp add: rect_eq_spec spec_resolve_def)

lemma circle_contact_iff: "snd (resolveCircleObstacleCollision b c) = spec_circleContact b c"
  by (simp add: circle_eq_spec spec_resolve_def)

text \<open>
  With exact arithmetic a bounce leaves the ball at exactly the contact distance.
\<close>

lemma rect_touching:
  assumes "spec_rectContact b rect"
  shows "spec_rectDistSq (fst (resolveRectCollision b rect)) rect = 14 * 14"
proof -
  define cx where "cx = fst (spec_closest b rect)"
  define cy where "cy = snd (spec_closest b rect)"
  define dx where "dx = ball_x b - cx"
  define dy where "dy = ball_y b - cy"
  define d where "d = sqrt (dx * dx + dy * dy)"
  define t where "t = (14 - d) / d"
  define b' where "b' = fst (resolveRectCollision b rect)"
  have D: "spec_rectDistSq b rect = dx * dx + dy * dy"
    by (simp add: spec_rectDistSq_def dx_def dy_def cx_def cy_def)
  have pos: "0 < dx * dx + dy * dy" and lt: "dx * dx + dy * dy < 14 * 14"
    using assms by (simp_all add: spec_rectContact_def D)
  have dpos: "0 < d" using pos by (simp add: d_def)
  have "d < sqrt (14 * 14)" unfolding d_def using lt by (rule real_sqrt_less_mono)
  then have d14: "d < 14" by simp
  have t0: "0 \<le> t" using dpos d14 by (simp add: t_def)
  have bx: "ball_x b' = ball_x b + dx / d * (14 - d)"
   and bY: "ball_y b' = ball_y b + dy / d * (14 - d)"
    using assms
    by (simp_all add: b'_def rect_eq_spec spec_resolve_def spec_bounce_def spec_rectNormal_def
        D d_def dx_def dy_def cx_def cy_def)
  have bx2: "ball_x b' = ball_x b + (ball_x b - cx) * t"
    by (simp add: bx t_def dx_def)
  have by2: "ball_y b' = ball_y b + (ball_y b - cy) * t"
    by (simp add: bY t_def dy_def)
  have cx': "fst (spec_closest b' rect) = cx"
    unfolding spec_closest_def fst_conv bx2
    using clamp_push [OF t0, of "rect_x rect" "ball_x b" "rect_x rect + rect_width rect"]
    by (simp add: cx_def spec_closest_def)
  have cy': "snd (spec_closest b' rect) = cy"
    unfolding spec_closest_def snd_conv by2
    using clamp_push [OF t0, of "rect_y rect" "ball_y b" "rect_y rect + rect_height rect"]
    by (simp add: cy_def spec_closest_def)
  have ex: "ball_x b' - cx = dx + dx / d * (14 - d)" by (simp add: bx dx_def)
  have ey: "ball_y b' - cy = dy + dy / d * (14 - d)" by (simp add: bY dy_def)
  have "spec_rectDistSq b' rect
        = (dx + dx / d * (14 - d)) * (dx + dx / d * (14 - d))
        + (dy + dy / d * (14 - d)) * (dy + dy / d * (14 - d))"
    by (simp only: spec_rectDistSq_def cx' cy' ex ey)
  also have "\<dots> = 14 * 14"
    unfolding d_def by (rule push_distSq [OF pos])
  finally show ?thesis by (simp only: b'_def)
qed

lemma circle_touching:
  assumes "spec_circleContact b c"
  shows "spec_circleDist (fst (resolveCircleObstacleCollision b c)) c = 14 + circle_radius c"
proof -
  define dx where "dx = ball_x b - circle_x c"
  define dy where "dy = ball_y b - circle_y c"
  define d where "d = sqrt (dx * dx + dy * dy)"
  define m where "m = 14 + circle_radius c"
  define b' where "b' = fst (resolveCircleObstacleCollision b c)"
  have D: "spec_circleDist b c = d"
    by (simp add: spec_circleDist_def dx_def dy_def d_def)
  have dpos: "0 < d" and dm: "d < m" using assms by (simp_all add: spec_circleContact_def D m_def)
  have pos: "0 < dx * dx + dy * dy" using dpos by (simp add: d_def)
  have mpos: "0 \<le> m" using dpos dm by linarith
  have ex: "ball_x b' - circle_x c = dx + dx / d * (m - d)"
   and ey: "ball_y b' - circle_y c = dy + dy / d * (m - d)"
    using assms
    by (simp_all add: b'_def circle_eq_spec spec_resolve_def spec_bounce_def
        spec_circleNormal_def D m_def dx_def dy_def)
  have "spec_circleDist b' c
        = sqrt ((dx + dx / d * (m - d)) * (dx + dx / d * (m - d))
              + (dy + dy / d * (m - d)) * (dy + dy / d * (m - d)))"
    by (simp only: spec_circleDist_def ex ey)
  also have "\<dots> = sqrt (m * m)"
    unfolding d_def by (simp only: push_distSq [OF pos])
  also have "\<dots> = m" using mpos by simp
  finally show ?thesis by (simp only: b'_def m_def)
qed

section \<open>The tick and its stages\<close>

lemma spec_resolve_unchanged: "\<not> snd (spec_resolve b obs) \<Longrightarrow> fst (spec_resolve b obs) = b"
  by (cases obs) (simp_all add: spec_resolve_def split: if_splits)

lemma dispatch_eq_spec:
  "(case obs of Rect rect \<Rightarrow> resolveRectCollision b rect
              | Circle circle \<Rightarrow> resolveCircleObstacleCollision b circle) = spec_resolve b obs"
  by (cases obs) (simp_all add: rect_eq_spec circle_eq_spec)

lemma obstacleLoop_eq_fold:
  "obstacleLoop cur h obs = foldl spec_obstacle (cur, h) obs"
proof (induction obs arbitrary: cur h)
  case Nil
  show ?case by simp
next
  case (Cons obs rest)
  show ?case
  proof (cases "snd (spec_resolve cur obs)")
    case True
    then show ?thesis
      by (simp add: dispatch_eq_spec Cons.IH spec_obstacle_def)
  next
    case False
    then show ?thesis
      by (simp add: dispatch_eq_spec Cons.IH spec_obstacle_def spec_resolve_unchanged)
  qed
qed

lemma stepPhysics_eq_spec: "stepPhysics b obs = spec_tick b obs"
  by (cases b)
     (simp add: stepPhysics_def spec_tick_def spec_walls_def spec_ceiling_def
        spec_rightWall_def spec_leftWall_def spec_integrate_def spec_gravity_def
        obstacleLoop_eq_fold Let_def constant_defs split_beta)

lemma afterWalls_eq_spec: "afterWalls b = fst (spec_walls (spec_integrate (spec_gravity b)))"
  by (simp add: afterWalls_def stepPhysics_eq_spec spec_tick_def Let_def)

lemma stepPhysics_ball:
  "ball (stepPhysics b obs) = fst (obstacleLoop (afterWalls b) False obs)"
  by (simp add: afterWalls_eq_spec stepPhysics_eq_spec spec_tick_def Let_def
      obstacleLoop_eq_fold)

section \<open>The resolver's contract, and the tick\<close>


lemma rect_normal_unit:
  "spec_rectContact b rect \<Longrightarrow> spec_unit (spec_rectNormal b rect)"
  unfolding spec_rectContact_def spec_unit_def spec_rectNormal_def fst_conv snd_conv
    spec_rectDistSq_def
  by (rule unit_normal) simp

lemma circle_normal_unit:
  "spec_circleContact b c \<Longrightarrow> spec_unit (spec_circleNormal b c)"
  unfolding spec_circleContact_def spec_unit_def spec_circleNormal_def fst_conv snd_conv
    spec_circleDist_def
  by (rule unit_normal) simp



text \<open>
  C1. \<open>stepPhysics\<close> is the tick of the specification: gravity 0.3 on \<open>vy\<close>, the
  position moved by the velocity, the left, right and top walls clamping to the radius
  and reflecting with 0.75, the resolver applied to the obstacles in list order, each on
  the state the previous one left, and \<open>outOfBounds\<close> true exactly when \<open>y - 14 > 560\<close>.
  The walls clamp \<open>y\<close> from above only: there is no bottom wall. Every function involved
  is total (the loop is a structural recursion on the list), so a result exists for every
  state, for instance for a ball at rest.
\<close>

theorem stepPhysics_order:
  "stepPhysics b obs = spec_tick b obs \<and>
   ball_y (ball (stepPhysics b [])) =
     (if ball_y b + (ball_vy b + 0.3) - 14 < 0 then 14 else ball_y b + (ball_vy b + 0.3)) \<and>
   outOfBounds (stepPhysics b obs) = (ball_y (ball (stepPhysics b obs)) - 14 > 560) \<and>
   stepPhysics \<lparr>ball_x = 400, ball_y = 300, ball_vx = 0, ball_vy = 0\<rparr> [] =
     \<lparr>ball = \<lparr>ball_x = 400, ball_y = 300.3, ball_vx = 0, ball_vy = 0.3\<rparr>,
      wallBounced = False, obstacleBounced = False, outOfBounds = False\<rparr>"
proof -
  have a: "stepPhysics b obs = spec_tick b obs" by (rule stepPhysics_eq_spec)
  have b: "ball_y (ball (stepPhysics b [])) =
     (if ball_y b + (ball_vy b + 0.3) - 14 < 0 then 14 else ball_y b + (ball_vy b + 0.3))"
    by (simp add: stepPhysics_def Let_def constant_defs split_beta)
  have c: "outOfBounds (stepPhysics b obs) = (ball_y (ball (stepPhysics b obs)) - 14 > 560)"
    by (simp add: stepPhysics_def Let_def constant_defs split_beta)
  have d: "stepPhysics \<lparr>ball_x = 400, ball_y = 300, ball_vx = 0, ball_vy = 0\<rparr> [] =
     \<lparr>ball = \<lparr>ball_x = 400, ball_y = 300.3, ball_vx = 0, ball_vy = 0.3\<rparr>,
      wallBounced = False, obstacleBounced = False, outOfBounds = False\<rparr>"
    by (simp add: stepPhysics_def Let_def constant_defs)
  from a b c d show ?thesis by blast
qed

section \<open>Energy and the direction of reflections\<close>

lemma speed_nonneg: "0 \<le> speed b"
  by (simp add: speed_def)

lemma scaled_norm:
  fixes a b c :: real
  assumes "0 \<le> c"
  shows "sqrt ((a * c) * (a * c) + (b * c) * (b * c)) = c * sqrt (a * a + b * b)"
proof -
  have "(a * c) * (a * c) + (b * c) * (b * c) = (c * c) * (a * a + b * b)"
    by (simp add: algebra_simps)
  then have "sqrt ((a * c) * (a * c) + (b * c) * (b * c)) = sqrt (c * c) * sqrt (a * a + b * b)"
    by (simp only: real_sqrt_mult)
  also have "sqrt (c * c) = c" using assms by simp
  finally show ?thesis .
qed

lemma speed_bounce:
  assumes "spec_unit n"
  shows "speed (spec_bounce b n depth) = 0.75 * speed b"
proof -
  define vx where "vx = ball_vx b"
  define vy where "vy = ball_vy b"
  define nx where "nx = fst n"
  define ny where "ny = snd n"
  define ax where "ax = vx - 2 * (vx * nx + vy * ny) * nx"
  define ay where "ay = vy - 2 * (vx * nx + vy * ny) * ny"
  have u: "nx * nx + ny * ny = 1" using assms by (simp add: spec_unit_def nx_def ny_def)
  have keep: "ax * ax + ay * ay = vx * vx + vy * vy"
    unfolding ax_def ay_def by (rule reflect_norm [OF u])
  have "speed (spec_bounce b n depth)
        = sqrt ((ax * 0.75) * (ax * 0.75) + (ay * 0.75) * (ay * 0.75))"
    by (simp only: speed_def spec_bounce_def ax_def ay_def vx_def vy_def nx_def ny_def
        BallState.simps)
  also have "\<dots> = 0.75 * sqrt (ax * ax + ay * ay)"
    by (rule scaled_norm) simp
  also have "\<dots> = 0.75 * speed b"
    by (simp only: keep speed_def vx_def vy_def)
  finally show ?thesis .
qed

lemma speed_resolve:
  "speed (fst (spec_resolve b obs)) = (if snd (spec_resolve b obs) then 0.75 * speed b else speed b)"
proof (cases obs)
  case (Rect rect)
  then show ?thesis
    by (simp add: spec_resolve_def speed_bounce rect_normal_unit)
next
  case (Circle c)
  then show ?thesis
    by (simp add: spec_resolve_def speed_bounce circle_normal_unit)
qed

lemma speed_resolve_le: "speed (fst (spec_resolve b obs)) \<le> speed b"
  using speed_nonneg [of b] by (simp add: speed_resolve)

lemma shrink_sq:
  fixes v c :: real
  assumes "0 \<le> c" and "c \<le> 1"
  shows "(\<bar>v\<bar> * c) * (\<bar>v\<bar> * c) \<le> v * v"
proof -
  have cc: "c * c \<le> 1" using assms by (simp add: mult_le_one)
  have "(\<bar>v\<bar> * c) * (\<bar>v\<bar> * c) = (c * c) * (\<bar>v\<bar> * \<bar>v\<bar>)" by (simp add: algebra_simps)
  also have "\<dots> = (c * c) * (v * v)" by simp
  also have "\<dots> \<le> 1 * (v * v)" using cc by (rule mult_right_mono) simp
  finally show ?thesis by simp
qed

lemma speed_leftWall: "speed (fst (spec_leftWall bw)) \<le> speed (fst bw)"
  using shrink_sq [of "0.75" "ball_vx (fst bw)"]
  by (simp add: spec_leftWall_def speed_def)

lemma speed_rightWall: "speed (fst (spec_rightWall bw)) \<le> speed (fst bw)"
  using shrink_sq [of "0.75" "ball_vx (fst bw)"]
  by (simp add: spec_rightWall_def speed_def)

lemma speed_ceiling: "speed (fst (spec_ceiling bw)) \<le> speed (fst bw)"
  using shrink_sq [of "0.75" "ball_vy (fst bw)"]
  by (simp add: spec_ceiling_def speed_def)

lemma speed_walls: "speed (fst (spec_walls b)) \<le> speed b"
proof -
  have "speed (fst (spec_walls b)) \<le> speed (fst (spec_rightWall (spec_leftWall (b, False))))"
    unfolding spec_walls_def by (rule speed_ceiling)
  also have "\<dots> \<le> speed (fst (spec_leftWall (b, False)))" by (rule speed_rightWall)
  also have "\<dots> \<le> speed (fst (b, False))" by (rule speed_leftWall)
  finally show ?thesis by simp
qed

lemma speed_fold: "speed (fst (foldl spec_obstacle bh obs)) \<le> speed (fst bh)"
proof (induction obs arbitrary: bh)
  case Nil
  show ?case by simp
next
  case (Cons ob rest)
  have "speed (fst (foldl spec_obstacle (spec_obstacle bh ob) rest))
        \<le> speed (fst (spec_obstacle bh ob))"
    by (rule Cons.IH)
  also have "\<dots> \<le> speed (fst bh)"
    by (simp add: spec_obstacle_def speed_resolve_le)
  finally show ?case by simp
qed

lemma speed_integrate: "speed (spec_integrate b) = speed b"
  by (simp add: spec_integrate_def speed_def)

lemma speed_tick: "speed (ball (stepPhysics b obs)) \<le> speed (b\<lparr>ball_vy := ball_vy b + GRAVITY\<rparr>)"
proof -
  have "speed (ball (stepPhysics b obs))
        \<le> speed (fst (spec_walls (spec_integrate (spec_gravity b))))"
    using speed_fold [of "(fst (spec_walls (spec_integrate (spec_gravity b))), False)" obs]
    by (simp add: stepPhysics_eq_spec spec_tick_def Let_def)
  also have "\<dots> \<le> speed (spec_integrate (spec_gravity b))" by (rule speed_walls)
  also have "\<dots> = speed (b\<lparr>ball_vy := ball_vy b + GRAVITY\<rparr>)"
    by (simp add: speed_integrate spec_gravity_def GRAVITY_def)
  finally show ?thesis .
qed

text \<open>
  C9. No bounce adds energy. An obstacle bounce leaves exactly 0.75 of the speed (the
  length of the velocity), so the speed after it is at most the speed before it; each of
  the three wall reflections leaves at most the speed it found; and so the speed at the
  end of a tick, with or without obstacles, is at most the speed right after gravity was
  added.
\<close>

theorem bounces_non_energizing:
  "speed (fst (resolveRectCollision b rect)) =
     (if snd (resolveRectCollision b rect) then 0.75 * speed b else speed b) \<and>
   speed (fst (resolveCircleObstacleCollision b c)) =
     (if snd (resolveCircleObstacleCollision b c) then 0.75 * speed b else speed b) \<and>
   speed (fst (resolveRectCollision b rect)) \<le> speed b \<and>
   speed (fst (resolveCircleObstacleCollision b c)) \<le> speed b \<and>
   speed (fst (spec_leftWall bw)) \<le> speed (fst bw) \<and>
   speed (fst (spec_rightWall bw)) \<le> speed (fst bw) \<and>
   speed (fst (spec_ceiling bw)) \<le> speed (fst bw) \<and>
   speed (ball (stepPhysics b [])) \<le> speed (b\<lparr>ball_vy := ball_vy b + GRAVITY\<rparr>) \<and>
   speed (ball (stepPhysics b obs)) \<le> speed (b\<lparr>ball_vy := ball_vy b + GRAVITY\<rparr>)"
  using speed_resolve [of b "Rect rect"] speed_resolve [of b "Circle c"]
    speed_resolve_le [of b "Rect rect"] speed_resolve_le [of b "Circle c"]
    speed_leftWall [of bw] speed_rightWall [of bw] speed_ceiling [of bw]
    speed_tick [of b "[]"] speed_tick [of b obs]
  by (simp only: rect_eq_spec circle_eq_spec simp_thms)

text \<open>
  C10. After a wall clamp the reflected component points away from the wall whatever its
  sign was: at the left wall \<open>vx = |vx| \<cdot> 0.75 \<ge> 0\<close>, at the right wall
  \<open>vx = -|vx| \<cdot> 0.75 \<le> 0\<close>, at the ceiling \<open>vy = |vy| \<cdot> 0.75 \<ge> 0\<close> (\<open>vy\<close> after
  gravity). The witness has a ball inside the left wall that already moves right with
  \<open>vx = 2\<close>: it leaves with \<open>vx = 1.5\<close>, not \<open>-1.5\<close>.
\<close>

theorem walls_reflect_away:
  "(ball_x b + ball_vx b - 14 < 0 \<longrightarrow>
      ball_vx (ball (stepPhysics b [])) = \<bar>ball_vx b\<bar> * 0.75 \<and>
      0 \<le> ball_vx (ball (stepPhysics b [])) \<and>
      ball_x (ball (stepPhysics b [])) = 14 \<and>
      wallBounced (stepPhysics b obs)) \<and>
   (ball_x b + ball_vx b + 14 > 800 \<longrightarrow>
      ball_vx (ball (stepPhysics b [])) = - \<bar>ball_vx b\<bar> * 0.75 \<and>
      ball_vx (ball (stepPhysics b [])) \<le> 0 \<and>
      ball_x (ball (stepPhysics b [])) = 786 \<and>
      wallBounced (stepPhysics b obs)) \<and>
   (ball_y b + (ball_vy b + 0.3) - 14 < 0 \<longrightarrow>
      ball_vy (ball (stepPhysics b [])) = \<bar>ball_vy b + 0.3\<bar> * 0.75 \<and>
      0 \<le> ball_vy (ball (stepPhysics b [])) \<and>
      ball_y (ball (stepPhysics b [])) = 14 \<and>
      wallBounced (stepPhysics b obs))"
  by (simp add: stepPhysics_def Let_def constant_defs split_beta)

theorem walls_reflect_away_witness:
  "ball_x \<lparr>ball_x = 10, ball_y = 10, ball_vx = 2, ball_vy = 1.7\<rparr>
     + ball_vx \<lparr>ball_x = 10, ball_y = 10, ball_vx = 2, ball_vy = 1.7\<rparr> - 14 < 0 \<and>
   ball_vx (ball (stepPhysics \<lparr>ball_x = 10, ball_y = 10, ball_vx = 2, ball_vy = 1.7\<rparr> []))
     = 1.5 \<and>
   ball_y \<lparr>ball_x = 10, ball_y = 10, ball_vx = 2, ball_vy = 1.7\<rparr>
     + (ball_vy \<lparr>ball_x = 10, ball_y = 10, ball_vx = 2, ball_vy = 1.7\<rparr> + 0.3) - 14 < 0 \<and>
   ball_vy (ball (stepPhysics \<lparr>ball_x = 10, ball_y = 10, ball_vx = 2, ball_vy = 1.7\<rparr> []))
     = 1.5 \<and>
   ball_x \<lparr>ball_x = 790, ball_y = 100, ball_vx = - 2, ball_vy = 0\<rparr>
     + ball_vx \<lparr>ball_x = 790, ball_y = 100, ball_vx = - 2, ball_vy = 0\<rparr> + 14 > 800 \<and>
   ball_vx (ball (stepPhysics \<lparr>ball_x = 790, ball_y = 100, ball_vx = - 2, ball_vy = 0\<rparr> []))
     = - 1.5"
  using walls_reflect_away [of "\<lparr>ball_x = 10, ball_y = 10, ball_vx = 2, ball_vy = 1.7\<rparr>" "[]"]
    walls_reflect_away [of "\<lparr>ball_x = 790, ball_y = 100, ball_vx = - 2, ball_vy = 0\<rparr>" "[]"]
  by simp

section \<open>A tick between two slabs, with exact arithmetic\<close>

lemma stepPhysics_obstacleBounced:
  "obstacleBounced (stepPhysics b obs) = snd (obstacleLoop (afterWalls b) False obs)"
  by (simp add: afterWalls_eq_spec stepPhysics_eq_spec spec_tick_def Let_def
      obstacleLoop_eq_fold)

lemma gap_afterWalls:
  "afterWalls gap_ball = \<lparr>ball_x = 50, ball_y = 90, ball_vx = 0, ball_vy = 0\<rparr>"
  by (simp add: afterWalls_def stepPhysics_def Let_def constant_defs gap_ball_def)

lemma gap_slab_bounce:
  "resolveRectCollision \<lparr>ball_x = 50, ball_y = 90, ball_vx = 0, ball_vy = 0\<rparr> ex_slab
   = (\<lparr>ball_x = 50, ball_y = 86, ball_vx = 0, ball_vy = 0\<rparr>, True)"
  by (simp add: resolveRectCollision_def Let_def constant_defs ex_slab_def)

lemma gap_roof_bounce:
  "resolveRectCollision \<lparr>ball_x = 50, ball_y = 86, ball_vx = 0, ball_vy = 0\<rparr> gap_roof
   = (\<lparr>ball_x = 50, ball_y = 94, ball_vx = 0, ball_vy = 0\<rparr>, True)"
  by (simp add: resolveRectCollision_def Let_def constant_defs gap_roof_def)

section \<open>One step of the game loop\<close>

lemma firings_emit: "firings (emit c s) = firings s + (if isFiring c then 1 else 0)"
  by (simp add: firings_def emit_def)

lemma collectStars_frame:
  "phaseRef (collectStars st i s) = phaseRef s \<and>
   winFiredRef (collectStars st i s) = winFiredRef s \<and>
   loseFiredRef (collectStars st i s) = loseFiredRef s \<and>
   bouncesRef (collectStars st i s) = bouncesRef s \<and>
   ballRef (collectStars st i s) = ballRef s \<and>
   firings (collectStars st i s) = firings s"
  by (induction st arbitrary: i s) (simp_all add: emit_def firings_def isFiring_def)

lemma collectStars_firing_calls:
  "length (filter isFiring (calls (collectStars st i s))) = length (filter isFiring (calls s))"
  using collectStars_frame [of st i s] by (simp add: firings_def)

lemma stepState_frame:
  "phaseRef (stepState level s) = phaseRef s \<and>
   winFiredRef (stepState level s) = winFiredRef s \<and>
   loseFiredRef (stepState level s) = loseFiredRef s \<and>
   firings (stepState level s) = firings s \<and>
   ballRef (stepState level s) = ball (stepPhysics (ballRef s) (obstacles level)) \<and>
   bouncesRef (stepState level s) =
     bouncesRef s + (if wallBounced (stepPhysics (ballRef s) (obstacles level))
                        \<or> obstacleBounced (stepPhysics (ballRef s) (obstacles level))
                     then 1 else 0)"
  by (simp add: stepState_def Let_def collectStars_frame collectStars_firing_calls emit_def
      firings_def isFiring_def)

lemma loopBody_unfold:
  "loopBody level s =
    (if winsNow level s then
       (onPhaseChange Won
          (emit (OnWin (calculateScore
                          (int (length (filter (\<lambda>c. c) (starsCollectedRef (stepState level s)))))
                          (bouncesRef (stepState level s)) (elapsedRef (stepState level s))
                          (maxBounces level))
                       (int (length (filter (\<lambda>c. c) (starsCollectedRef (stepState level s))))))
             ((stepState level s)\<lparr>winFiredRef := True\<rparr>)), True)
     else if losesOutOfBounds level s \<or> losesMaxBounces level s then
       (onPhaseChange Lost (emit OnLose ((stepState level s)\<lparr>loseFiredRef := True\<rparr>)), True)
     else (stepState level s, False))"
proof -
  have w: "winFiredRef (stepState level s) = winFiredRef s"
   and l: "loseFiredRef (stepState level s) = loseFiredRef s"
    by (simp_all add: stepState_frame)
  have "loopBody level s =
    (let s1 = stepState level s in
     if \<not> winFiredRef s1 \<and> checkGoalEntry (ballRef s1) (goal level) then
       (onPhaseChange Won
          (emit (OnWin (calculateScore (int (length (filter (\<lambda>c. c) (starsCollectedRef s1))))
                          (bouncesRef s1) (elapsedRef s1) (maxBounces level))
                       (int (length (filter (\<lambda>c. c) (starsCollectedRef s1)))))
             (s1\<lparr>winFiredRef := True\<rparr>)), True)
     else if \<not> loseFiredRef s1 \<and> outOfBounds (stepPhysics (ballRef s) (obstacles level)) then
       (onPhaseChange Lost (emit OnLose (s1\<lparr>loseFiredRef := True\<rparr>)), True)
     else if \<not> loseFiredRef s1 \<and> bouncesRef s1 > maxBounces level then
       (onPhaseChange Lost (emit OnLose (s1\<lparr>loseFiredRef := True\<rparr>)), True)
     else (s1, False))"
    by (simp add: loopBody_def stepState_def Let_def emit_def)
  then show ?thesis
    by (simp add: Let_def w l winsNow_def losesOutOfBounds_def losesMaxBounces_def)
qed

lemma stepState_firing_calls:
  "length (filter isFiring (calls (stepState level s))) = firings s"
  using stepState_frame [of level s] by (simp add: firings_def)

lemma loopBody_effect:
  "phaseRef (fst (loopBody level s)) =
     (if winsNow level s then Won
      else if losesOutOfBounds level s \<or> losesMaxBounces level s then Lost
      else phaseRef s) \<and>
   winFiredRef (fst (loopBody level s)) = (winFiredRef s \<or> winsNow level s) \<and>
   loseFiredRef (fst (loopBody level s)) =
     (loseFiredRef s \<or>
      (\<not> winsNow level s \<and> (losesOutOfBounds level s \<or> losesMaxBounces level s))) \<and>
   snd (loopBody level s) =
     (winsNow level s \<or> losesOutOfBounds level s \<or> losesMaxBounces level s) \<and>
   firings (fst (loopBody level s)) =
     firings s +
     (if winsNow level s \<or> losesOutOfBounds level s \<or> losesMaxBounces level s then 1 else 0) \<and>
   bouncesRef (fst (loopBody level s)) = bouncesRef (stepState level s)"
proof -
  have f: "firings (stepState level s) = firings s" by (simp add: stepState_frame)
  have fw: "\<And>c t. firings (onPhaseChange Won (emit (OnWin c t) ((stepState level s)\<lparr>winFiredRef := True\<rparr>)))
            = Suc (firings s)"
    by (simp add: firings_def onPhaseChange_def emit_def isFiring_def stepState_firing_calls)
  have fl: "firings (onPhaseChange Lost (emit OnLose ((stepState level s)\<lparr>loseFiredRef := True\<rparr>)))
            = Suc (firings s)"
    by (simp add: firings_def onPhaseChange_def emit_def isFiring_def stepState_firing_calls)
  have p: "phaseRef (stepState level s) = phaseRef s"
   and w: "winFiredRef (stepState level s) = winFiredRef s"
   and l: "loseFiredRef (stepState level s) = loseFiredRef s"
    by (simp_all add: stepState_frame)
  have rest: "\<And>c t. phaseRef (onPhaseChange Won (emit (OnWin c t) ((stepState level s)\<lparr>winFiredRef := True\<rparr>))) = Won
      \<and> winFiredRef (onPhaseChange Won (emit (OnWin c t) ((stepState level s)\<lparr>winFiredRef := True\<rparr>)))
      \<and> loseFiredRef (onPhaseChange Won (emit (OnWin c t) ((stepState level s)\<lparr>winFiredRef := True\<rparr>))) = loseFiredRef s
      \<and> bouncesRef (onPhaseChange Won (emit (OnWin c t) ((stepState level s)\<lparr>winFiredRef := True\<rparr>))) = bouncesRef (stepState level s)"
    by (simp add: onPhaseChange_def emit_def l)
  have restl: "phaseRef (onPhaseChange Lost (emit OnLose ((stepState level s)\<lparr>loseFiredRef := True\<rparr>))) = Lost
      \<and> loseFiredRef (onPhaseChange Lost (emit OnLose ((stepState level s)\<lparr>loseFiredRef := True\<rparr>)))
      \<and> winFiredRef (onPhaseChange Lost (emit OnLose ((stepState level s)\<lparr>loseFiredRef := True\<rparr>))) = winFiredRef s
      \<and> bouncesRef (onPhaseChange Lost (emit OnLose ((stepState level s)\<lparr>loseFiredRef := True\<rparr>))) = bouncesRef (stepState level s)"
    by (simp add: onPhaseChange_def emit_def w)
  have wn: "winsNow level s \<Longrightarrow> \<not> winFiredRef s" by (simp add: winsNow_def)
  have ln: "losesOutOfBounds level s \<or> losesMaxBounces level s \<Longrightarrow> \<not> loseFiredRef s"
    by (auto simp: losesOutOfBounds_def losesMaxBounces_def)
  show ?thesis
    using wn ln
    by (simp add: loopBody_unfold fw fl rest restl f p w l)
qed

section \<open>The bounce counter\<close>

lemma runSteps_stop:
  "snd (loopBody level s) \<Longrightarrow> runSteps level (Suc n) s = (fst (loopBody level s), True)"
  by (cases "loopBody level s") auto

lemma runSteps_go:
  "\<not> snd (loopBody level s) \<Longrightarrow> runSteps level (Suc n) s = runSteps level n (fst (loopBody level s))"
  by (cases "loopBody level s") auto

lemma loopBody_bounces:
  "bouncesRef (fst (loopBody level s)) =
     bouncesRef s + (if wallBounced (stepPhysics (ballRef s) (obstacles level))
                        \<or> obstacleBounced (stepPhysics (ballRef s) (obstacles level))
                     then 1 else 0)"
  using loopBody_effect [of level s] stepState_frame [of level s] by simp

lemma runSteps_bounces:
  "bouncesRef s \<le> bouncesRef (fst (runSteps level n s)) \<and>
   bouncesRef (fst (runSteps level n s)) \<le> bouncesRef s + int n"
proof (induction n arbitrary: s)
  case 0
  show ?case by simp
next
  case (Suc n)
  have step: "bouncesRef s \<le> bouncesRef (fst (loopBody level s)) \<and>
              bouncesRef (fst (loopBody level s)) \<le> bouncesRef s + 1"
    by (simp add: loopBody_bounces)
  show ?case
  proof (cases "snd (loopBody level s)")
    case True
    then have "runSteps level (Suc n) s = (fst (loopBody level s), True)"
      by (rule runSteps_stop)
    then show ?thesis using step by (simp del: runSteps.simps)
  next
    case False
    then have "runSteps level (Suc n) s = runSteps level n (fst (loopBody level s))"
      by (rule runSteps_go)
    with Suc.IH [of "fst (loopBody level s)"] step show ?thesis
      by (simp del: runSteps.simps)
  qed
qed

lemma loop_bounces: "bouncesRef s \<le> bouncesRef (loop level now s)"
proof (cases "phaseRef s = Playing")
  case False
  then show ?thesis by (simp add: loop_def)
next
  case True
  define s1 where
    "s1 = emit (OnTimeUpdate ((now - startTimeRef s) / 1000))
            (s\<lparr>elapsedRef := (now - startTimeRef s) / 1000\<rparr>)"
  define k where "k = nat (min \<lfloor>(now - lastTime s) / 16.67 + 1 / 2\<rfloor> 3)"
  have b1: "bouncesRef s1 = bouncesRef s" by (simp add: s1_def emit_def)
  have "bouncesRef (loop level now s) = bouncesRef (fst (runSteps level k s1))"
    using True
    by (simp add: loop_def Let_def s1_def k_def emit_def split: prod.splits bool.splits)
  with runSteps_bounces [of s1 level k] b1 show ?thesis by simp
qed

lemma handle_bounces: "bouncesRef s \<le> bouncesRef (handle level s e)"
proof (cases e)
  case (Frame now)
  then show ?thesis by (simp add: loop_bounces)
next
  case (MouseDown pos)
  then show ?thesis by (simp add: handleMouseDown_def Let_def)
next
  case (MouseMove pos)
  then show ?thesis by (simp add: handleMouseMove_def)
next
  case (MouseUp pos now)
  then show ?thesis
    by (simp add: handleMouseUp_def Let_def onPhaseChange_def emit_def split: option.splits)
next
  case PauseClick
  then show ?thesis by (simp add: handlePause_def)next
  case (LoopEffect now)
  then show ?thesis by simp
qed

lemma run_bounces: "bouncesRef s \<le> bouncesRef (run level es s)"
proof (induction es arbitrary: s)
  case Nil
  show ?case by (simp add: run_def)
next
  case (Cons e es)
  have "bouncesRef s \<le> bouncesRef (handle level s e)" by (rule handle_bounces)
  also have "\<dots> \<le> bouncesRef (run level es (handle level s e))" by (rule Cons.IH)
  finally show ?case by (simp add: run_def)
qed

text \<open>
  C5. One simulation step adds exactly 1 to the bounce counter when the tick reported a
  wall bounce or an obstacle bounce, and 0 otherwise, however many obstacles were struck;
  so the counter never decreases: not over the steps of a frame (where \<open>n\<close> steps add at
  most \<open>n\<close>), not over a frame, not over any run of events of a session. The witness is a
  tick that strikes both slabs and counts one bounce.
\<close>

theorem bounce_counter_monotone:
  "bouncesRef (fst (loopBody level s)) =
     bouncesRef s + (if wallBounced (stepPhysics (ballRef s) (obstacles level))
                        \<or> obstacleBounced (stepPhysics (ballRef s) (obstacles level))
                     then 1 else 0) \<and>
   bouncesRef s \<le> bouncesRef (fst (runSteps level n s)) \<and>
   bouncesRef (fst (runSteps level n s)) \<le> bouncesRef s + int n \<and>
   bouncesRef s \<le> bouncesRef (loop level now s) \<and>
   bouncesRef s \<le> bouncesRef (run level es s)"
  using loopBody_bounces [of level s] runSteps_bounces [of s level n]
    loop_bounces [of s level now] run_bounces [of s level es]
  by blast

theorem bounce_counter_monotone_witness:
  "inContact (afterWalls (ballRef gap_session)) (Rect ex_slab) \<and>
   inContact (fst (resolveRectCollision (afterWalls (ballRef gap_session)) ex_slab))
     (Rect gap_roof) \<and>
   bouncesRef gap_session = 0 \<and>
   bouncesRef (fst (loopBody gap_level gap_session)) = 1"
proof -
  have b: "ballRef gap_session = gap_ball" "bouncesRef gap_session = 0"
    "obstacles gap_level = [Rect ex_slab, Rect gap_roof]"
    by (simp_all add: gap_session_def initSession_def gap_level_def)
  have c: "obstacleBounced (stepPhysics gap_ball [Rect ex_slab, Rect gap_roof])"
    by (simp add: stepPhysics_obstacleBounced gap_afterWalls gap_slab_bounce gap_roof_bounce)
  have d: "inContact (afterWalls gap_ball) (Rect ex_slab) \<and>
           inContact (fst (resolveRectCollision (afterWalls gap_ball) ex_slab)) (Rect gap_roof)"
    by (simp add: inContact_def gap_afterWalls gap_slab_bounce gap_roof_bounce)
  from bounce_counter_monotone [of gap_level gap_session] b c d
  show ?thesis by simp
qed

section \<open>Terminal transitions\<close>

lemma consistent_init: "consistent (initSession level boot)"
  by (simp add: consistent_def initSession_def firings_def isFiring_def)

lemma consistent_live:
  "consistent s \<Longrightarrow> phaseRef s = Playing \<Longrightarrow>
   \<not> winFiredRef s \<and> \<not> loseFiredRef s \<and> firings s = 0"
  by (simp add: consistent_def)

lemma loopBody_consistent:
  assumes "consistent s" and "phaseRef s = Playing"
  shows "consistent (fst (loopBody level s)) \<and>
         (\<not> snd (loopBody level s) \<longrightarrow> phaseRef (fst (loopBody level s)) = Playing)"
  using consistent_live [OF assms] loopBody_effect [of level s] assms(2)
  by (simp add: consistent_def)

lemma runSteps_consistent:
  assumes "consistent s" and "phaseRef s = Playing"
  shows "consistent (fst (runSteps level n s))"
  using assms
proof (induction n arbitrary: s)
  case 0
  then show ?case by simp
next
  case (Suc n)
  note body = loopBody_consistent [OF Suc.prems, of level]
  show ?case
  proof (cases "snd (loopBody level s)")
    case True
    then have "runSteps level (Suc n) s = (fst (loopBody level s), True)"
      by (rule runSteps_stop)
    then show ?thesis using body by (simp del: runSteps.simps)
  next
    case False
    then have r: "runSteps level (Suc n) s = runSteps level n (fst (loopBody level s))"
      by (rule runSteps_go)
    have "consistent (fst (runSteps level n (fst (loopBody level s))))"
      using body False by (intro Suc.IH) simp_all
    then show ?thesis by (simp only: r)
  qed
qed

lemma consistent_lastTime: "consistent (s\<lparr>lastTime := t\<rparr>) = consistent s"
  by (simp add: consistent_def firings_def)

lemma loop_consistent:
  assumes "consistent s"
  shows "consistent (loop level now s)"
proof (cases "phaseRef s = Playing")
  case False
  then show ?thesis using assms by (simp add: loop_def consistent_lastTime)
next
  case True
  define s1 where
    "s1 = emit (OnTimeUpdate ((now - startTimeRef s) / 1000))
            (s\<lparr>elapsedRef := (now - startTimeRef s) / 1000\<rparr>)"
  define k where "k = nat (min \<lfloor>(now - lastTime s) / 16.67 + 1 / 2\<rfloor> 3)"
  have c1: "consistent s1" and p1: "phaseRef s1 = Playing"
    using assms True by (simp_all add: s1_def emit_def consistent_def firings_def isFiring_def)
  have c: "consistent (fst (runSteps level k s1))"
    using c1 p1 by (rule runSteps_consistent)
  have "loop level now s = fst (runSteps level k s1) \<or>
        loop level now s = (fst (runSteps level k s1))\<lparr>lastTime := now\<rparr>"
    using True
    by (simp add: loop_def Let_def s1_def k_def emit_def split: prod.splits bool.splits)
  then show ?thesis using c by (auto simp: consistent_lastTime)
qed

lemma handle_consistent:
  assumes "consistent s"
  shows "consistent (handle level s e)"
proof (cases e)
  case (Frame now)
  then show ?thesis using assms by (simp add: loop_consistent)
next
  case (MouseDown pos)
  then show ?thesis using assms
    by (auto simp: handleMouseDown_def Let_def consistent_def firings_def split: if_splits)
next
  case (MouseMove pos)
  then show ?thesis using assms
    by (auto simp: handleMouseMove_def consistent_def firings_def split: if_splits)
next
  case (MouseUp pos now)
  then show ?thesis using assms
    by (auto simp: handleMouseUp_def Let_def onPhaseChange_def emit_def consistent_def
        firings_def isFiring_def split: option.splits if_splits)
next
  case PauseClick
  then show ?thesis using assms
    by (auto simp: handlePause_def consistent_def firings_def split: if_splits)next
  case (LoopEffect now)
  then show ?thesis using assms by (simp add: consistent_lastTime)
qed

lemma run_consistent: "consistent s \<Longrightarrow> consistent (run level es s)"
proof (induction es arbitrary: s)
  case Nil
  then show ?case by (simp add: run_def)
next
  case (Cons e es)
  have "consistent (handle level s e)" using Cons.prems by (rule handle_consistent)
  then have "consistent (run level es (handle level s e))" by (rule Cons.IH)
  then show ?case by (simp add: run_def)
qed

lemma handle_terminal:
  assumes "phaseRef s = Won \<or> phaseRef s = Lost"
  shows "(handle level s e)\<lparr>lastTime := t\<rparr> = s\<lparr>lastTime := t\<rparr>"
proof (cases e)
  case (Frame now)
  then show ?thesis using assms by (auto simp: loop_def)
next
  case (MouseDown pos)
  then show ?thesis using assms by (auto simp: handleMouseDown_def)
next
  case (MouseMove pos)
  then show ?thesis using assms by (auto simp: handleMouseMove_def)
next
  case (MouseUp pos now)
  then show ?thesis using assms by (auto simp: handleMouseUp_def split: option.splits)
next
  case PauseClick
  then show ?thesis using assms by (auto simp: handlePause_def)next
  case (LoopEffect now)
  then show ?thesis by simp
qed

lemma run_terminal:
  assumes "phaseRef s = Won \<or> phaseRef s = Lost"
  shows "(run level es s)\<lparr>lastTime := t\<rparr> = s\<lparr>lastTime := t\<rparr>"
  using assms
proof (induction es arbitrary: s)
  case Nil
  show ?case by (simp add: run_def)
next
  case (Cons e es)
  have h: "(handle level s e)\<lparr>lastTime := t\<rparr> = s\<lparr>lastTime := t\<rparr>"
    using Cons.prems by (rule handle_terminal)
  have "phaseRef ((handle level s e)\<lparr>lastTime := t\<rparr>) = phaseRef (s\<lparr>lastTime := t\<rparr>)"
    by (simp only: h)
  then have "phaseRef (handle level s e) = phaseRef s" by simp
  with Cons.prems have "phaseRef (handle level s e) = Won \<or> phaseRef (handle level s e) = Lost"
    by simp
  then have "(run level es (handle level s e))\<lparr>lastTime := t\<rparr> = (handle level s e)\<lparr>lastTime := t\<rparr>"
    by (rule Cons.IH)
  then show ?case using h by (simp add: run_def)
qed

lemma ex_aiming_eval:
  "ex_aiming = (initSession ex_level 0)\<lparr>dragStartRef := Some \<lparr>vec_x = 100, vec_y = 300\<rparr>,
       dragCurrentRef := Some \<lparr>vec_x = 100, vec_y = 300\<rparr>\<rparr>"
  by (simp add: ex_aiming_def handleMouseDown_def initSession_def ex_level_def Let_def
      constant_defs)

lemma ex_playing_eval:
  "ex_playing = (initSession ex_level 0)\<lparr>
       ballRef := \<lparr>ball_x = 100, ball_y = 300, ball_vx = 7.2, ball_vy = - 9.6\<rparr>,
       phaseRef := Playing, calls := [OnBounceUpdate 0, OnTimeUpdate 0, OnPhaseChange Playing]\<rparr>"
  by (simp add: ex_playing_def ex_aiming_eval handleMouseUp_def initSession_def ex_level_def
      Let_def constant_defs onPhaseChange_def emit_def)

lemma ex_playing_stops: "snd (loopBody ex_level ex_playing)"
  by (simp add: ex_playing_eval Let_def initSession_def ex_level_def
      emit_def onPhaseChange_def loopBody_def stepPhysics_def constant_defs checkGoalEntry_def)

lemma ex_won_phase: "phaseRef ex_won = Won"
  by (simp add: ex_won_def ex_playing_eval loop_def Let_def initSession_def ex_level_def
      emit_def onPhaseChange_def loopBody_def stepPhysics_def constant_defs checkGoalEntry_def
      calculateScore_def)

lemma ex_won_run:
  "run ex_level [MouseDown \<lparr>vec_x = 100, vec_y = 300\<rparr>,
                 MouseUp \<lparr>vec_x = 160, vec_y = 220\<rparr> 0, Frame 17] (initSession ex_level 0)
   = ex_won"
  by (simp add: run_def ex_won_def ex_playing_def ex_aiming_def)

text \<open>
  C4. A simulation step checks goal entry first, then out of bounds, then the bounce
  counter against \<open>maxBounces\<close>, each with its latch: the first check that holds decides
  the phase (\<open>Won\<close> before \<open>Lost\<close>), sets its latch and fires one terminal transition, and
  the steps of the frame stop there. Once the phase is \<open>Won\<close> or \<open>Lost\<close>, no run of frames,
  mouse events and pause clicks changes the session (but for the frame clock), so nothing
  fires again; and from the start of a session, every run has fired at most once, exactly
  when it is in a terminal phase, with exactly that phase's latch set. The two checks for
  \<open>Lost\<close> have the same effect, so their order cannot be seen in the state. It is the
  phase guard of the frame callback that keeps a won session from losing later: the win
  latch alone does not block the two checks for \<open>Lost\<close>.
\<close>

theorem terminal_transition_once:
  "phaseRef (fst (loopBody level s)) =
     (if winsNow level s then Won
      else if losesOutOfBounds level s \<or> losesMaxBounces level s then Lost
      else phaseRef s) \<and>
   winFiredRef (fst (loopBody level s)) = (winFiredRef s \<or> winsNow level s) \<and>
   loseFiredRef (fst (loopBody level s)) =
     (loseFiredRef s \<or>
      (\<not> winsNow level s \<and> (losesOutOfBounds level s \<or> losesMaxBounces level s))) \<and>
   snd (loopBody level s) =
     (winsNow level s \<or> losesOutOfBounds level s \<or> losesMaxBounces level s) \<and>
   firings (fst (loopBody level s)) =
     firings s +
     (if winsNow level s \<or> losesOutOfBounds level s \<or> losesMaxBounces level s then 1 else 0) \<and>
   (snd (loopBody level s) \<longrightarrow>
      runSteps level (Suc n) s = (fst (loopBody level s), True)) \<and>
   (phaseRef s = Won \<or> phaseRef s = Lost \<longrightarrow>
      (run level es s)\<lparr>lastTime := lastTime s\<rparr> = s) \<and>
   firings (run level es (initSession level boot)) \<le> 1 \<and>
   (firings (run level es (initSession level boot)) = 1) =
     (phaseRef (run level es (initSession level boot)) = Won
      \<or> phaseRef (run level es (initSession level boot)) = Lost) \<and>
   winFiredRef (run level es (initSession level boot)) =
     (phaseRef (run level es (initSession level boot)) = Won) \<and>
   loseFiredRef (run level es (initSession level boot)) =
     (phaseRef (run level es (initSession level boot)) = Lost)"
proof -
  have c: "consistent (run level es (initSession level boot))"
    using consistent_init by (rule run_consistent)
  have d: "firings (run level es (initSession level boot)) \<le> 1 \<and>
   (firings (run level es (initSession level boot)) = 1) =
     (phaseRef (run level es (initSession level boot)) = Won
      \<or> phaseRef (run level es (initSession level boot)) = Lost) \<and>
   winFiredRef (run level es (initSession level boot)) =
     (phaseRef (run level es (initSession level boot)) = Won) \<and>
   loseFiredRef (run level es (initSession level boot)) =
     (phaseRef (run level es (initSession level boot)) = Lost)"
    using c by (simp add: consistent_def)
  have t: "phaseRef s = Won \<or> phaseRef s = Lost \<longrightarrow>
      (run level es s)\<lparr>lastTime := lastTime s\<rparr> = s"
    using run_terminal [where s = s and level = level and es = es and t = "lastTime s"]
    by simp
  have r: "snd (loopBody level s) \<longrightarrow>
      runSteps level (Suc n) s = (fst (loopBody level s), True)"
    using runSteps_stop [of level s n] by blast
  from loopBody_effect [of level s] r t d show ?thesis by blast
qed

theorem terminal_transition_once_witness:
  "snd (loopBody ex_level ex_playing) \<and>
   runSteps ex_level (Suc 2) ex_playing = (fst (loopBody ex_level ex_playing), True) \<and>
   phaseRef ex_won = Won \<and>
   (run ex_level [LoopEffect 18, Frame 34, PauseClick, MouseDown \<lparr>vec_x = 100, vec_y = 300\<rparr>,
                  MouseUp \<lparr>vec_x = 160, vec_y = 220\<rparr> 40, Frame 50] ex_won)
      \<lparr>lastTime := lastTime ex_won\<rparr> = ex_won \<and>
   firings ex_won = 1"
proof -
  note a = terminal_transition_once [where level = ex_level and s = ex_playing and n = 2]
  note b = terminal_transition_once [where level = ex_level and s = ex_won and boot = 0
      and es = "[LoopEffect 18, Frame 34, PauseClick, MouseDown \<lparr>vec_x = 100, vec_y = 300\<rparr>,
                 MouseUp \<lparr>vec_x = 160, vec_y = 220\<rparr> 40, Frame 50]"]
  note c = terminal_transition_once [where level = ex_level and boot = 0
      and es = "[MouseDown \<lparr>vec_x = 100, vec_y = 300\<rparr>,
                 MouseUp \<lparr>vec_x = 160, vec_y = 220\<rparr> 0, Frame 17]"]
  have c': "firings ex_won = 1" using c ex_won_phase by (simp only: ex_won_run) simp
  from a b c' ex_playing_stops ex_won_phase show ?thesis by blast
qed

section \<open>Launching\<close>

text \<open>
  C6. Releasing a drag while aiming launches the ball exactly when the drag's length,
  clamped to 150, is at least 5: then the phase becomes \<open>Playing\<close> and the velocity is the
  normalised drag direction times \<open>min(length, 150)\<close> times 0.12, the position unchanged.
  A shorter drag, a drag of length 0 included, is dropped: the ball and the phase stay
  as they are. The witness launches with a drag of 100, of 500 (clamped to 150) and of
  exactly 5, and drops a drag of 0.
\<close>

theorem launch_on_mouse_up:
  assumes "phaseRef s = Aiming" and "dragStartRef s = Some start"
  shows "let dx = vec_x endPos - vec_x start;
             dy = vec_y endPos - vec_y start;
             mag = sqrt (dx * dx + dy * dy);
             dist = min mag 150;
             s' = handleMouseUp endPos now s
         in if 5 \<le> dist
            then phaseRef s' = Playing \<and>
                 ballRef s' = (ballRef s)\<lparr>ball_vx := dx / mag * (dist * 0.12),
                                           ball_vy := dy / mag * (dist * 0.12)\<rparr> \<and>
                 calls s' = calls s @ [OnPhaseChange Playing] \<and>
                 startTimeRef s' = now \<and> dragStartRef s' = None
            else phaseRef s' = Aiming \<and> ballRef s' = ballRef s \<and>
                 calls s' = calls s \<and> dragStartRef s' = None"
  using assms
  by (auto simp: handleMouseUp_def Let_def constant_defs onPhaseChange_def emit_def min_def)

theorem launch_on_mouse_up_witness:
  "phaseRef ex_aiming = Aiming \<and>
   dragStartRef ex_aiming = Some \<lparr>vec_x = 100, vec_y = 300\<rparr> \<and>
   phaseRef (handleMouseUp \<lparr>vec_x = 160, vec_y = 220\<rparr> 0 ex_aiming) = Playing \<and>
   ball_vx (ballRef (handleMouseUp \<lparr>vec_x = 160, vec_y = 220\<rparr> 0 ex_aiming)) = 7.2 \<and>
   ball_vy (ballRef (handleMouseUp \<lparr>vec_x = 160, vec_y = 220\<rparr> 0 ex_aiming)) = - 9.6 \<and>
   phaseRef (handleMouseUp \<lparr>vec_x = 400, vec_y = 700\<rparr> 0 ex_aiming) = Playing \<and>
   ball_vx (ballRef (handleMouseUp \<lparr>vec_x = 400, vec_y = 700\<rparr> 0 ex_aiming)) = 10.8 \<and>
   ball_vy (ballRef (handleMouseUp \<lparr>vec_x = 400, vec_y = 700\<rparr> 0 ex_aiming)) = 14.4 \<and>
   phaseRef (handleMouseUp \<lparr>vec_x = 100, vec_y = 300\<rparr> 0 ex_aiming) = Aiming \<and>
   ballRef (handleMouseUp \<lparr>vec_x = 100, vec_y = 300\<rparr> 0 ex_aiming) = ballRef ex_aiming \<and>
   phaseRef (handleMouseUp \<lparr>vec_x = 103, vec_y = 296\<rparr> 0 ex_aiming) = Playing"
proof -
  have p: "phaseRef ex_aiming = Aiming"
   and d: "dragStartRef ex_aiming = Some \<lparr>vec_x = 100, vec_y = 300\<rparr>"
   and v: "ballRef ex_aiming = \<lparr>ball_x = 100, ball_y = 300, ball_vx = 0, ball_vy = 0\<rparr>"
    by (simp_all add: ex_aiming_eval initSession_def ex_level_def)
  from launch_on_mouse_up [OF p d, of "\<lparr>vec_x = 160, vec_y = 220\<rparr>" 0]
    launch_on_mouse_up [OF p d, of "\<lparr>vec_x = 400, vec_y = 700\<rparr>" 0]
    launch_on_mouse_up [OF p d, of "\<lparr>vec_x = 100, vec_y = 300\<rparr>" 0]
    launch_on_mouse_up [OF p d, of "\<lparr>vec_x = 103, vec_y = 296\<rparr>" 0]
  show ?thesis by (simp add: Let_def p d v)
qed

section \<open>Evaluating a rounding\<close>

text \<open>
  To compute \<open>rnd64 x\<close>: name the binade \<open>e\<close> of \<open>x\<close> and the integer \<open>k\<close> nearest to
  \<open>x / 2 ^ (e - 52)\<close>. For a square root the bounds are given squared. Integers below
  \<open>2 ^ 53\<close> are doubles.
\<close>

lemma rnd64_evalI:
  assumes "x \<noteq> 0" and "- 1022 \<le> e" and "\<bar>x\<bar> < 2 powi (e + 1)"
      and "e = - 1022 \<or> 2 powi e \<le> \<bar>x\<bar>"
      and "\<bar>x / 2 powi (e - 52) - of_int k\<bar> < 1 / 2"
      and "v = of_int k * 2 powi (e - 52)"
  shows "rnd64 x = v"
  using rnd64_eval [OF assms(1-5)] assms(6) by simp


lemma rhe_error: "\<bar>real_of_int (rhe m) - m\<bar> \<le> 1 / 2"
  by (simp add: rhe_def)

lemma rnd64_error:
  assumes "- 1022 \<le> e" and "\<bar>x\<bar> < 2 powi (e + 1)"
  shows "\<bar>rnd64 x - x\<bar> \<le> 2 powi (e - 53)"
proof (cases "x = 0")
  case True
  then show ?thesis using pow2_pos [of "e - 53"] by (simp add: rnd64_zero)
next
  case False
  note p = expo64_props [OF False]
  have le: "expo64 x \<le> e"
  proof (cases "expo64 x = - 1022")
    case True
    then show ?thesis using assms(1) by simp
  next
    case False
    with p(3) have "2 powi expo64 x \<le> \<bar>x\<bar>" by simp
    with assms(2) have "(2::real) powi expo64 x < 2 powi (e + 1)" by linarith
    then have "expo64 x < e + 1" by (rule pow2_less_cancel)
    then show ?thesis by simp
  qed
  have u: "ulp64 x \<le> 2 powi (e - 52)"
    unfolding ulp64_def by (rule pow2_mono) (use le in simp)
  have half: "(2::real) powi (e - 52) = 2 ^ 1 * 2 powi (e - 53)"
    by (rule pow2_shift) simp
  have "rnd64 x - x = (real_of_int (rhe (x / ulp64 x)) - x / ulp64 x) * ulp64 x"
    using ulp64_pos [of x] by (simp add: rnd64_def field_simps)
  then have "\<bar>rnd64 x - x\<bar> = \<bar>real_of_int (rhe (x / ulp64 x)) - x / ulp64 x\<bar> * ulp64 x"
    using ulp64_pos [of x] by (simp add: abs_mult)
  also have "\<dots> \<le> 1 / 2 * ulp64 x"
    using rhe_error [of "x / ulp64 x"] ulp64_pos [of x] by (intro mult_right_mono) simp_all
  also have "\<dots> \<le> 1 / 2 * 2 powi (e - 52)" using u by simp
  also have "\<dots> = 2 powi (e - 53)" by (simp add: half)
  finally show ?thesis .
qed













section \<open>The score formula\<close>

lemma tenth_sub: "fsub 60 tenth64 = 8430175552484147 / 140737488355328"
  unfolding fsub_def tenth64_def
  by (rule rnd64_evalI [where e = 5 and k = 8430175552484147]) simp_all

lemma tenth_mul: "fmul (8430175552484147 / 140737488355328) 10 = 599"
  unfolding fmul_def
  by (rule rnd64_evalI [where e = 9 and k = 5268859720302592]) simp_all

lemma tenth_is64: "is64 tenth64"
  unfolding is64_def tenth64_def
  by (rule rnd64_evalI [where e = "- 4" and k = 7205759403792794]) simp_all

lemma timeBonus_late:
  assumes "60 \<le> t"
  shows "max 0 \<lfloor>fmul (fsub 60 t) 10\<rfloor> = 0"
proof -
  have "fsub 60 t \<le> 0" unfolding fsub_def by (rule rnd64_nonpos) (use assms in simp)
  then have "fsub 60 t * 10 \<le> 0" by simp
  then have "fmul (fsub 60 t) 10 \<le> 0" unfolding fmul_def by (rule rnd64_nonpos)
  then have "\<lfloor>fmul (fsub 60 t) 10\<rfloor> \<le> 0" by (simp add: floor_le_iff)
  then show ?thesis by simp
qed

lemma floor_close:
  fixes p q :: real
  assumes "\<bar>p - q\<bar> < 1"
  shows "\<bar>max 0 \<lfloor>p\<rfloor> - max 0 \<lfloor>q\<rfloor>\<bar> \<le> (1::int)"
proof -
  define a where "a = \<lfloor>p\<rfloor>"
  define b where "b = \<lfloor>q\<rfloor>"
  have "a \<le> b + 1" "b \<le> a + 1" unfolding a_def b_def using assms by linarith+
  then have "\<bar>max 0 a - max 0 b\<bar> \<le> 1" by linarith
  then show ?thesis by (simp only: a_def b_def)
qed

lemma timeBonus_close:
  assumes "0 \<le> t"
  shows "\<bar>max 0 \<lfloor>fmul (fsub 60 t) 10\<rfloor> - max 0 \<lfloor>(60 - t) * 10\<rfloor>\<bar> \<le> 1"
proof (cases "60 \<le> t")
  case True
  then have "(60 - t) * 10 \<le> 0" by simp
  then have "\<lfloor>(60 - t) * 10\<rfloor> \<le> 0" by (simp add: floor_le_iff)
  then show ?thesis using timeBonus_late [OF True] by simp
next
  case False
  define a where "a = fsub 60 t"
  define p where "p = fmul a 10"
  have r: "\<bar>60 - t\<bar> < 2 powi (5 + 1)" using assms False by simp
  have ea: "\<bar>a - (60 - t)\<bar> \<le> 2 powi (5 - 53)"
    unfolding a_def fsub_def by (rule rnd64_error [OF _ r]) simp
  then have ea': "\<bar>a - (60 - t)\<bar> \<le> 1 / 2 ^ 48" by simp
  have small: "1 / 2 ^ 48 \<le> (1::real)" by simp
  have "\<bar>a\<bar> \<le> 61" using ea' small assms False by linarith
  then have r2: "\<bar>a * 10\<bar> < 2 powi (9 + 1)" by (simp add: abs_mult)
  have "\<bar>p - a * 10\<bar> \<le> 2 powi (9 - 53)"
    unfolding p_def fmul_def by (rule rnd64_error [OF _ r2]) simp
  then have ep: "\<bar>p - a * 10\<bar> \<le> 1 / 2 ^ 44" by simp
  have "p - (60 - t) * 10 = (p - a * 10) + 10 * (a - (60 - t))" by (simp add: algebra_simps)
  then have "\<bar>p - (60 - t) * 10\<bar> \<le> \<bar>p - a * 10\<bar> + \<bar>10 * (a - (60 - t))\<bar>"
    by (simp only: abs_triangle_ineq)
  also have "\<dots> = \<bar>p - a * 10\<bar> + 10 * \<bar>a - (60 - t)\<bar>" by (subst abs_mult) simp
  finally have "\<bar>p - (60 - t) * 10\<bar> \<le> \<bar>p - a * 10\<bar> + 10 * \<bar>a - (60 - t)\<bar>" .
  also have "\<dots> \<le> 1 / 2 ^ 44 + 10 * (1 / 2 ^ 48)"
    using ep ea' by (intro add_mono mult_left_mono) simp_all
  also have "\<dots> < 1" by simp
  finally have "\<bar>p - (60 - t) * 10\<bar> < 1" .
  then show ?thesis unfolding p_def a_def by (rule floor_close)
qed

text \<open>
  C7, as stated, fails. The time bonus is not always \<open>max(0, floor((60 - t) * 10))\<close> of
  the real numbers: the program computes \<open>60 - t\<close> and the product with 10 on doubles,
  each rounded, and takes the floor of the result. For \<open>t\<close> the double nearest to 0.1
  (an elapsed time of 100 ms) the rounded product is exactly 599, so \<open>calculateScore\<close>
  returns the time bonus 599, while the exact \<open>(60 - t) * 10\<close> lies just below 599 and
  the stated formula gives 598.
\<close>

theorem time_bonus_counterexample:
  "is64 tenth64 \<and>
   timeBonus (calculateScore 0 0 tenth64 20) = 599 \<and>
   max 0 \<lfloor>(60 - tenth64) * 10\<rfloor> = (598::int)"
proof -
  have "timeBonus (calculateScore 0 0 tenth64 20) = 599"
    by (simp add: calculateScore_def Let_def tenth_sub tenth_mul)
  moreover have "max 0 \<lfloor>(60 - tenth64) * 10\<rfloor> = (598::int)"
    by (simp add: tenth64_def)
  ultimately show ?thesis using tenth_is64 by simp
qed

text \<open>
  C7, amended. \<open>calculateScore\<close> returns \<open>starsBonus = starsCollected * 500\<close>,
  \<open>bounceEfficiency = max(0, (maxBounces - bounces) * 100)\<close>, \<open>timeBonus\<close> the maximum of
  0 and the floor of the rounded product of the rounded difference \<open>60 - t\<close> with 10, and
  \<open>total\<close> their sum. The two bonuses are never negative and can be 0 (five bounces
  against a limit of three, 70 seconds); the total has no upper clamp (it is at least
  \<open>100 * maxBounces\<close>, for any \<open>maxBounces\<close>). For an elapsed time \<open>t \<ge> 0\<close> the time
  bonus differs from \<open>max(0, floor((60 - t) * 10))\<close> by at most 1.
\<close>

theorem calculateScore_rounded:
  "starsBonus (calculateScore s b t m) = s * 500 \<and>
   bounceEfficiency (calculateScore s b t m) = max 0 ((m - b) * 100) \<and>
   timeBonus (calculateScore s b t m) = max 0 \<lfloor>fmul (fsub 60 t) 10\<rfloor> \<and>
   total (calculateScore s b t m) =
     s * 500 + max 0 ((m - b) * 100) + max 0 \<lfloor>fmul (fsub 60 t) 10\<rfloor> \<and>
   0 \<le> bounceEfficiency (calculateScore s b t m) \<and>
   0 \<le> timeBonus (calculateScore s b t m) \<and>
   bounceEfficiency (calculateScore 0 5 70 3) = 0 \<and>
   timeBonus (calculateScore 0 5 70 3) = 0 \<and>
   100 * m \<le> total (calculateScore 0 0 0 m) \<and>
   (0 \<le> t \<longrightarrow>
      \<bar>timeBonus (calculateScore s b t m) - max 0 \<lfloor>(60 - t) * 10\<rfloor>\<bar> \<le> 1)"
proof -
  have late: "timeBonus (calculateScore 0 5 70 3) = 0"
    using timeBonus_late [of 70] by (simp add: calculateScore_def Let_def)
  have close: "0 \<le> t \<longrightarrow>
      \<bar>timeBonus (calculateScore s b t m) - max 0 \<lfloor>(60 - t) * 10\<rfloor>\<bar> \<le> 1"
    using timeBonus_close [of t] by (simp add: calculateScore_def Let_def)
  have "m * 100 \<le> max 0 (m * 100)" and "0 \<le> max 0 \<lfloor>fmul (fsub 60 0) 10\<rfloor>"
    by simp_all
  then have "100 * m \<le> max 0 (m * 100) + max 0 \<lfloor>fmul (fsub 60 0) 10\<rfloor>"
    by linarith
  then have big: "100 * m \<le> total (calculateScore 0 0 0 m)"
    by (simp add: calculateScore_def Let_def)
  show ?thesis
    using late close big by (simp add: calculateScore_def Let_def)
qed

theorem calculateScore_rounded_witness:
  "0 \<le> tenth64 \<and>
   timeBonus (calculateScore 3 2 tenth64 20) = 599 \<and>
   \<bar>timeBonus (calculateScore 3 2 tenth64 20) - max 0 \<lfloor>(60 - tenth64) * 10\<rfloor>\<bar> \<le> 1 \<and>
   total (calculateScore 3 2 tenth64 20) = 3899"
proof -
  have a: "0 \<le> tenth64" by (simp add: tenth64_def)
  have b: "\<lfloor>fmul (fsub 60 tenth64) 10\<rfloor> = 599" by (simp add: tenth_sub tenth_mul)
  from a b calculateScore_rounded [of 3 2 tenth64 20] show ?thesis by auto
qed

section \<open>A bounce in binary64\<close>











section \<open>Two bounces that stay in contact\<close>


































































section \<open>The tick in binary64\<close>
























end
